theory Spec2Isabelle
  imports Complex_Main
begin

section \<open>Circuit breaker (src/circuitbreaker.js)\<close>

text \<open>
  Times are milliseconds since the epoch, as \<open>Date.now()\<close> returns them, and thresholds
  are natural numbers. An error is the message string of the JavaScript \<open>Error\<close>.
\<close>

datatype STATE = CLOSED | OPEN | HALF_OPEN

record breaker_stats =
  totalRequests :: nat
  totalFailures :: nat
  totalSuccesses :: nat
  totalRejected :: nat
  stateChanges :: nat

record CircuitBreaker =
  failureThreshold :: nat
  successThreshold :: nat
  timeout :: nat
  resetTimeout :: nat
  state :: STATE
  failures :: nat
  successes :: nat
  nextAttempt :: nat
  stats :: breaker_stats

record breaker_options =
  opt_failureThreshold :: "nat option"
  opt_successThreshold :: "nat option"
  opt_timeout :: "nat option"
  opt_resetTimeout :: "nat option"

text \<open>\<open>options.x || d\<close>: a missing field and the number 0 are both falsy.\<close>

definition or_default :: "nat option \<Rightarrow> nat \<Rightarrow> nat" where
  "or_default x d = (case x of None \<Rightarrow> d | Some n \<Rightarrow> if n = 0 then d else n)"

definition new_CircuitBreaker :: "breaker_options \<Rightarrow> nat \<Rightarrow> CircuitBreaker" where
  "new_CircuitBreaker options now =
     \<lparr> failureThreshold = or_default (opt_failureThreshold options) 5,
       successThreshold = or_default (opt_successThreshold options) 2,
       timeout = or_default (opt_timeout options) 60000,
       resetTimeout = or_default (opt_resetTimeout options) 30000,
       state = CLOSED,
       failures = 0,
       successes = 0,
       nextAttempt = now,
       stats = \<lparr> totalRequests = 0, totalFailures = 0, totalSuccesses = 0,
                 totalRejected = 0, stateChanges = 0 \<rparr> \<rparr>"

text \<open>
  What invoking the wrapped promise \<open>fn()\<close> does: it resolves with a value, rejects
  with an error, or is still pending when the timer of \<open>executeWithTimeout\<close> fires. The
  second component of a run is the time the awaited race took, so that \<open>Date.now()\<close>
  read in \<open>open()\<close> after the await is the invocation time plus that duration.
\<close>

datatype 'a outcome = Returned 'a | Threw string | TimedOut

type_synonym 'a run = "'a outcome \<times> nat"

definition executeWithTimeout :: "'a outcome \<Rightarrow> string + 'a" where
  "executeWithTimeout out =
     (case out of
        Returned v \<Rightarrow> Inr v
      | Threw e \<Rightarrow> Inl e
      | TimedOut \<Rightarrow> Inl ''Circuit breaker timeout'')"

definition bump_changes :: "CircuitBreaker \<Rightarrow> CircuitBreaker" where
  "bump_changes cb = cb\<lparr>stats := (stats cb)\<lparr>stateChanges := stateChanges (stats cb) + 1\<rparr>\<rparr>"

definition open_breaker :: "CircuitBreaker \<Rightarrow> nat \<Rightarrow> CircuitBreaker" where
  "open_breaker cb now =
     (if state cb = OPEN then cb
      else bump_changes (cb\<lparr>state := OPEN, nextAttempt := now + resetTimeout cb\<rparr>))"

definition close_breaker :: "CircuitBreaker \<Rightarrow> CircuitBreaker" where
  "close_breaker cb =
     (if state cb = CLOSED then cb
      else bump_changes (cb\<lparr>state := CLOSED, failures := 0, successes := 0\<rparr>))"

definition onSuccess :: "CircuitBreaker \<Rightarrow> CircuitBreaker" where
  "onSuccess cb =
     (let cb1 = cb\<lparr>failures := 0,
                    stats := (stats cb)\<lparr>totalSuccesses := totalSuccesses (stats cb) + 1\<rparr>\<rparr>
      in if state cb1 = HALF_OPEN
         then (let cb2 = cb1\<lparr>successes := successes cb1 + 1\<rparr>
               in if successes cb2 \<ge> successThreshold cb2 then close_breaker cb2 else cb2)
         else cb1)"

definition onFailure :: "CircuitBreaker \<Rightarrow> nat \<Rightarrow> CircuitBreaker" where
  "onFailure cb now =
     (let cb1 = cb\<lparr>failures := failures cb + 1, successes := 0,
                    stats := (stats cb)\<lparr>totalFailures := totalFailures (stats cb) + 1\<rparr>\<rparr>
      in if failures cb1 \<ge> failureThreshold cb1 then open_breaker cb1 now else cb1)"

text \<open>
  \<open>execute(fn, fallback)\<close> at invocation time \<open>now\<close>. The argument \<open>fn\<close> is the run
  that invoking the wrapped function gives, and \<open>fallback\<close> is what \<open>fallback()\<close> gives
  (\<open>Inl\<close> when the fallback itself throws), \<open>None\<close> for \<open>null\<close>. The result is what the
  caller gets (\<open>Inl\<close>: the promise rejects with that error), whether \<open>fn\<close> and
  \<open>fallback\<close> were invoked, and the breaker afterwards.
\<close>

record 'a executed =
  result :: "string + 'a"
  invoked :: bool
  fell_back :: bool
  breaker :: CircuitBreaker

definition use_fallback :: "(string + 'a) option \<Rightarrow> string \<Rightarrow> string + 'a" where
  "use_fallback fallback err = (case fallback of Some v \<Rightarrow> v | None \<Rightarrow> Inl err)"

definition execute ::
  "CircuitBreaker \<Rightarrow> nat \<Rightarrow> 'a run \<Rightarrow> (string + 'a) option \<Rightarrow> 'a executed" where
  "execute cb now fn fallback =
     (let cb1 = cb\<lparr>stats := (stats cb)\<lparr>totalRequests := totalRequests (stats cb) + 1\<rparr>\<rparr>
      in if state cb1 = OPEN \<and> now < nextAttempt cb1
         then \<lparr> result = use_fallback fallback
                           ''Service temporarily unavailable. Circuit breaker is open.'',
                invoked = False,
                fell_back = (fallback \<noteq> None),
                breaker = cb1\<lparr>stats := (stats cb1)\<lparr>totalRejected := totalRejected (stats cb1) + 1\<rparr>\<rparr> \<rparr>
         else
           (let cb2 = (if state cb1 = OPEN then bump_changes (cb1\<lparr>state := HALF_OPEN\<rparr>) else cb1)
            in case executeWithTimeout (fst fn) of
                 Inr v \<Rightarrow> \<lparr> result = Inr v, invoked = True, fell_back = False,
                            breaker = onSuccess cb2 \<rparr>
               | Inl e \<Rightarrow> \<lparr> result = use_fallback fallback e, invoked = True,
                            fell_back = (fallback \<noteq> None),
                            breaker = onFailure cb2 (now + snd fn) \<rparr>))"

text \<open>A run of \<open>fn\<close> fails when the race rejects: an error of \<open>fn\<close> or the timeout.\<close>

definition is_failure :: "'a outcome \<Rightarrow> bool" where
  "is_failure out = (case out of Returned v \<Rightarrow> False | Threw e \<Rightarrow> True | TimedOut \<Rightarrow> True)"

text \<open>
  A sequence of calls on one breaker, each awaited before the next is made: a call is
  its invocation time and the run of its wrapped function.
\<close>

type_synonym 'a call = "nat \<times> 'a run"

definition finished_at :: "'a call \<Rightarrow> nat" where
  "finished_at c = fst c + snd (snd c)"

fun execute_all ::
  "CircuitBreaker \<Rightarrow> 'a call list \<Rightarrow> (string + 'a) option \<Rightarrow> CircuitBreaker" where
  "execute_all cb [] fallback = cb"
| "execute_all cb (c # cs) fallback =
     execute_all (breaker (execute cb (fst c) (snd c) fallback)) cs fallback"

text \<open>
  What holds of every breaker the constructor makes and \<open>execute\<close> preserves: the
  thresholds are positive, an OPEN breaker has reached its failure threshold, and the
  success counter is only non-zero in HALF_OPEN, below its threshold.
\<close>

definition breaker_inv :: "CircuitBreaker \<Rightarrow> bool" where
  "breaker_inv cb =
     (0 < failureThreshold cb \<and> 0 < successThreshold cb \<and>
      (case state cb of
         CLOSED \<Rightarrow> successes cb = 0 \<and> failures cb < failureThreshold cb
       | OPEN \<Rightarrow> successes cb = 0 \<and> failureThreshold cb \<le> failures cb
       | HALF_OPEN \<Rightarrow> successes cb < successThreshold cb))"

section \<open>Properties of the circuit breaker\<close>

lemmas breaker_defs = execute_def executeWithTimeout_def onSuccess_def onFailure_def
  open_breaker_def close_breaker_def bump_changes_def Let_def is_failure_def

lemma breaker_inv_new: "breaker_inv (new_CircuitBreaker options now)"
  by (simp add: breaker_inv_def new_CircuitBreaker_def or_default_def split: option.splits)

lemma breaker_inv_execute: "breaker_inv cb \<Longrightarrow> breaker_inv (breaker (execute cb now fn fallback))"
  by (cases "fst fn"; cases "state cb")
     (auto simp: breaker_inv_def breaker_defs split: STATE.splits)

lemma execute_config:
  "failureThreshold (breaker (execute cb now fn fallback)) = failureThreshold cb"
  "successThreshold (breaker (execute cb now fn fallback)) = successThreshold cb"
  "resetTimeout (breaker (execute cb now fn fallback)) = resetTimeout cb"
  by (cases "fst fn"; simp add: breaker_defs)+

lemma rejected_step:
  "state cb = OPEN \<Longrightarrow> now < nextAttempt cb \<Longrightarrow>
   result (execute cb now fn fallback) =
     use_fallback fallback ''Service temporarily unavailable. Circuit breaker is open.'' \<and>
   \<not> invoked (execute cb now fn fallback) \<and>
   state (breaker (execute cb now fn fallback)) = OPEN \<and>
   nextAttempt (breaker (execute cb now fn fallback)) = nextAttempt cb \<and>
   failures (breaker (execute cb now fn fallback)) = failures cb \<and>
   successes (breaker (execute cb now fn fallback)) = successes cb"
  by (simp add: breaker_defs)

lemma failure_step:
  "\<not> (state cb = OPEN \<and> now < nextAttempt cb) \<Longrightarrow> is_failure (fst fn) \<Longrightarrow>
   invoked (execute cb now fn fallback) \<and>
   failures (breaker (execute cb now fn fallback)) = failures cb + 1 \<and>
   successes (breaker (execute cb now fn fallback)) = 0 \<and>
   state (breaker (execute cb now fn fallback)) =
     (if failureThreshold cb \<le> failures cb + 1 then OPEN
      else if state cb = OPEN then HALF_OPEN else state cb) \<and>
   nextAttempt (breaker (execute cb now fn fallback)) =
     (if failureThreshold cb \<le> failures cb + 1 then now + snd fn + resetTimeout cb
      else nextAttempt cb)"
  by (cases "fst fn"; cases "state cb") (auto simp: breaker_defs)

lemma success_step:
  "\<not> (state cb = OPEN \<and> now < nextAttempt cb) \<Longrightarrow> \<not> is_failure (fst fn) \<Longrightarrow>
   invoked (execute cb now fn fallback) \<and>
   failures (breaker (execute cb now fn fallback)) = 0 \<and>
   state (breaker (execute cb now fn fallback)) =
     (if state cb = CLOSED then CLOSED
      else if successThreshold cb \<le> successes cb + 1 then CLOSED else HALF_OPEN) \<and>
   successes (breaker (execute cb now fn fallback)) =
     (if state cb = CLOSED then successes cb
      else if successThreshold cb \<le> successes cb + 1 then 0 else successes cb + 1)"
  by (cases "fst fn"; cases "state cb") (auto simp: breaker_defs)

lemma failures_open:
  "state cb = CLOSED \<Longrightarrow> failures cb + length calls = failureThreshold cb \<Longrightarrow> calls \<noteq> [] \<Longrightarrow>
   \<forall>c \<in> set calls. is_failure (fst (snd c)) \<Longrightarrow>
   state (execute_all cb calls fallback) = OPEN \<and>
   nextAttempt (execute_all cb calls fallback) = finished_at (last calls) + resetTimeout cb"
proof (induction calls arbitrary: cb)
  case Nil
  then show ?case by simp
next
  case (Cons c cs)
  let ?cb = "breaker (execute cb (fst c) (snd c) fallback)"
  have adm: "\<not> (state cb = OPEN \<and> fst c < nextAttempt cb)" using Cons.prems by simp
  have f: "is_failure (fst (snd c))" using Cons.prems by simp
  note st = failure_step [of cb "fst c" "snd c" fallback, OF adm f]
  show ?case
  proof (cases cs)
    case Nil
    with Cons.prems st show ?thesis by (simp add: finished_at_def)
  next
    case (Cons d ds)
    have "state ?cb = CLOSED" using st Cons.prems \<open>cs = d # ds\<close> by simp
    moreover have "failures ?cb + length cs = failureThreshold ?cb"
      using st Cons.prems by (simp add: execute_config)
    moreover have "cs \<noteq> []" using Cons by simp
    moreover have "\<forall>c \<in> set cs. is_failure (fst (snd c))" using Cons.prems by simp
    ultimately have "state (execute_all ?cb cs fallback) = OPEN \<and>
      nextAttempt (execute_all ?cb cs fallback) = finished_at (last cs) + resetTimeout ?cb"
      by (rule Cons.IH)
    then show ?thesis using \<open>cs = d # ds\<close> by (simp add: execute_config)
  qed
qed

lemma successes_close:
  "state cb = HALF_OPEN \<or> (state cb = OPEN \<and> nextAttempt cb \<le> fst (hd calls)) \<Longrightarrow>
   successes cb + length calls = successThreshold cb \<Longrightarrow> calls \<noteq> [] \<Longrightarrow>
   \<forall>c \<in> set calls. \<not> is_failure (fst (snd c)) \<Longrightarrow>
   state (execute_all cb calls fallback) = CLOSED \<and>
   failures (execute_all cb calls fallback) = 0 \<and>
   successes (execute_all cb calls fallback) = 0"
proof (induction calls arbitrary: cb)
  case Nil
  then show ?case by simp
next
  case (Cons c cs)
  let ?cb = "breaker (execute cb (fst c) (snd c) fallback)"
  have adm: "\<not> (state cb = OPEN \<and> fst c < nextAttempt cb)" using Cons.prems by auto
  have f: "\<not> is_failure (fst (snd c))" using Cons.prems by simp
  note st = success_step [of cb "fst c" "snd c" fallback, OF adm f]
  have nc: "state cb \<noteq> CLOSED" using Cons.prems by auto
  show ?case
  proof (cases cs)
    case Nil
    with Cons.prems st nc show ?thesis by simp
  next
    case (Cons d ds)
    have "state ?cb = HALF_OPEN \<or> (state ?cb = OPEN \<and> nextAttempt ?cb \<le> fst (hd cs))"
      using st Cons.prems nc \<open>cs = d # ds\<close> by simp
    moreover have "successes ?cb + length cs = successThreshold ?cb"
      using st Cons.prems nc \<open>cs = d # ds\<close> by (simp add: execute_config)
    moreover have "cs \<noteq> []" using Cons by simp
    moreover have "\<forall>c \<in> set cs. \<not> is_failure (fst (snd c))" using Cons.prems by simp
    ultimately show ?thesis using Cons.IH [of ?cb] by simp
  qed
qed

lemma half_open_entry:
  "state cb = OPEN \<Longrightarrow> nextAttempt cb \<le> now \<Longrightarrow>
   execute cb now fn fallback = execute (bump_changes (cb\<lparr>state := HALF_OPEN\<rparr>)) now fn fallback"
  by (cases "fst fn") (simp_all add: breaker_defs)

lemma breaker_inv_execute_all:
  "breaker_inv cb \<Longrightarrow> breaker_inv (execute_all cb calls fallback)"
  by (induction calls arbitrary: cb) (simp_all add: breaker_inv_execute)

text \<open>
  C5, as the code has it. For a breaker that satisfies the invariant above (every breaker
  the constructor makes, after any calls):
  \<^item> from CLOSED with no failure counted, \<open>failureThreshold\<close> consecutive is_failure calls
    leave it OPEN with \<open>nextAttempt\<close> the time the last failure was handled plus
    \<open>resetTimeout\<close>;
  \<^item> while OPEN, a call invoked before \<open>nextAttempt\<close> gets the fallback (the rejection
    error when there is none), does not invoke the wrapped function and leaves the state
    and the timer alone;
  \<^item> while OPEN, a call invoked at or after \<open>nextAttempt\<close> is executed, exactly as a call
    on the breaker in HALF_OPEN is; when this trial call fails the breaker is OPEN again
    with the timer restarted;
  \<^item> \<open>successThreshold\<close> consecutive successes, counted from the trial call, leave the
    breaker CLOSED with both counters 0;
  \<^item> a is_failure call in HALF_OPEN returns to OPEN and restarts the timer when it brings
    the failure counter to \<open>failureThreshold\<close>; otherwise (only after an earlier success
    in HALF_OPEN has reset the failure counter, which needs \<open>successThreshold > 1\<close>) the
    breaker stays HALF_OPEN.
\<close>

theorem breaker_transitions:
  assumes inv: "breaker_inv cb"
  shows
   "(state cb = CLOSED \<and> failures cb = 0 \<and> length calls = failureThreshold cb \<and>
       (\<forall>c \<in> set calls. is_failure (fst (snd c)))
      \<longrightarrow> state (execute_all cb calls fallback) = OPEN \<and>
          nextAttempt (execute_all cb calls fallback) = finished_at (last calls) + resetTimeout cb)
    \<and> (state cb = OPEN \<and> now < nextAttempt cb
      \<longrightarrow> result (execute cb now fn fallback) =
            use_fallback fallback ''Service temporarily unavailable. Circuit breaker is open.'' \<and>
          \<not> invoked (execute cb now fn fallback) \<and>
          state (breaker (execute cb now fn fallback)) = OPEN \<and>
          nextAttempt (breaker (execute cb now fn fallback)) = nextAttempt cb)
    \<and> (state cb = OPEN \<and> nextAttempt cb \<le> now
      \<longrightarrow> invoked (execute cb now fn fallback) \<and>
          execute cb now fn fallback =
            execute (bump_changes (cb\<lparr>state := HALF_OPEN\<rparr>)) now fn fallback \<and>
          (is_failure (fst fn) \<longrightarrow>
             state (breaker (execute cb now fn fallback)) = OPEN \<and>
             nextAttempt (breaker (execute cb now fn fallback)) = now + snd fn + resetTimeout cb))
    \<and> ((state cb = HALF_OPEN \<or> state cb = OPEN \<and> nextAttempt cb \<le> fst (hd oks)) \<and>
       successes cb + length oks = successThreshold cb \<and>
       (\<forall>c \<in> set oks. \<not> is_failure (fst (snd c)))
      \<longrightarrow> state (execute_all cb oks fallback) = CLOSED \<and>
          failures (execute_all cb oks fallback) = 0 \<and>
          successes (execute_all cb oks fallback) = 0)
    \<and> (state cb = HALF_OPEN \<and> is_failure (fst fn)
      \<longrightarrow> invoked (execute cb now fn fallback) \<and>
          (if failureThreshold cb \<le> failures cb + 1
           then state (breaker (execute cb now fn fallback)) = OPEN \<and>
                nextAttempt (breaker (execute cb now fn fallback)) = now + snd fn + resetTimeout cb
           else state (breaker (execute cb now fn fallback)) = HALF_OPEN \<and>
                nextAttempt (breaker (execute cb now fn fallback)) = nextAttempt cb))"
proof -
  have p1: "state cb = CLOSED \<and> failures cb = 0 \<and> length calls = failureThreshold cb \<and>
       (\<forall>c \<in> set calls. is_failure (fst (snd c)))
      \<longrightarrow> state (execute_all cb calls fallback) = OPEN \<and>
          nextAttempt (execute_all cb calls fallback) = finished_at (last calls) + resetTimeout cb"
  proof
    assume a: "state cb = CLOSED \<and> failures cb = 0 \<and> length calls = failureThreshold cb \<and>
       (\<forall>c \<in> set calls. is_failure (fst (snd c)))"
    then have "calls \<noteq> []" using inv by (auto simp: breaker_inv_def)
    with a show "state (execute_all cb calls fallback) = OPEN \<and>
          nextAttempt (execute_all cb calls fallback) = finished_at (last calls) + resetTimeout cb"
      using failures_open [of cb calls fallback] by simp
  qed
  have p2: "state cb = OPEN \<and> now < nextAttempt cb
      \<longrightarrow> result (execute cb now fn fallback) =
            use_fallback fallback ''Service temporarily unavailable. Circuit breaker is open.'' \<and>
          \<not> invoked (execute cb now fn fallback) \<and>
          state (breaker (execute cb now fn fallback)) = OPEN \<and>
          nextAttempt (breaker (execute cb now fn fallback)) = nextAttempt cb"
    using rejected_step [of cb now fn fallback] by simp
  have p3: "state cb = OPEN \<and> nextAttempt cb \<le> now
      \<longrightarrow> invoked (execute cb now fn fallback) \<and>
          execute cb now fn fallback =
            execute (bump_changes (cb\<lparr>state := HALF_OPEN\<rparr>)) now fn fallback \<and>
          (is_failure (fst fn) \<longrightarrow>
             state (breaker (execute cb now fn fallback)) = OPEN \<and>
             nextAttempt (breaker (execute cb now fn fallback)) = now + snd fn + resetTimeout cb)"
  proof
    assume a: "state cb = OPEN \<and> nextAttempt cb \<le> now"
    have i: "invoked (execute cb now fn fallback)"
      using a by (cases "fst fn") (simp_all add: breaker_defs)
    have h: "execute cb now fn fallback =
            execute (bump_changes (cb\<lparr>state := HALF_OPEN\<rparr>)) now fn fallback"
      using a by (simp add: half_open_entry)
    have t: "failureThreshold cb \<le> failures cb + 1"
      using inv a by (simp add: breaker_inv_def)
    have f: "is_failure (fst fn) \<longrightarrow>
             state (breaker (execute cb now fn fallback)) = OPEN \<and>
             nextAttempt (breaker (execute cb now fn fallback)) = now + snd fn + resetTimeout cb"
      using failure_step [of cb now fn fallback] a t by simp
    show "invoked (execute cb now fn fallback) \<and>
          execute cb now fn fallback =
            execute (bump_changes (cb\<lparr>state := HALF_OPEN\<rparr>)) now fn fallback \<and>
          (is_failure (fst fn) \<longrightarrow>
             state (breaker (execute cb now fn fallback)) = OPEN \<and>
             nextAttempt (breaker (execute cb now fn fallback)) = now + snd fn + resetTimeout cb)"
      by (rule conjI [OF i conjI [OF h f]])
  qed
  have p4: "(state cb = HALF_OPEN \<or> state cb = OPEN \<and> nextAttempt cb \<le> fst (hd oks)) \<and>
       successes cb + length oks = successThreshold cb \<and>
       (\<forall>c \<in> set oks. \<not> is_failure (fst (snd c)))
      \<longrightarrow> state (execute_all cb oks fallback) = CLOSED \<and>
          failures (execute_all cb oks fallback) = 0 \<and>
          successes (execute_all cb oks fallback) = 0"
  proof
    assume a: "(state cb = HALF_OPEN \<or> state cb = OPEN \<and> nextAttempt cb \<le> fst (hd oks)) \<and>
       successes cb + length oks = successThreshold cb \<and>
       (\<forall>c \<in> set oks. \<not> is_failure (fst (snd c)))"
    have "successes cb < successThreshold cb"
      using inv a by (auto simp: breaker_inv_def)
    with a have "oks \<noteq> []" by auto
    with a show "state (execute_all cb oks fallback) = CLOSED \<and>
          failures (execute_all cb oks fallback) = 0 \<and>
          successes (execute_all cb oks fallback) = 0"
      using successes_close [of cb oks fallback] by blast
  qed
  have p5: "state cb = HALF_OPEN \<and> is_failure (fst fn)
      \<longrightarrow> invoked (execute cb now fn fallback) \<and>
          (if failureThreshold cb \<le> failures cb + 1
           then state (breaker (execute cb now fn fallback)) = OPEN \<and>
                nextAttempt (breaker (execute cb now fn fallback)) = now + snd fn + resetTimeout cb
           else state (breaker (execute cb now fn fallback)) = HALF_OPEN \<and>
                nextAttempt (breaker (execute cb now fn fallback)) = nextAttempt cb)"
    using failure_step [of cb now fn fallback] by simp
  show ?thesis
    by (rule conjI [OF p1 conjI [OF p2 conjI [OF p3 conjI [OF p4 p5]]]])
qed

theorem breaker_transitions_witness:
  "state (execute_all (new_CircuitBreaker \<lparr>opt_failureThreshold = Some 3,
            opt_successThreshold = Some 1, opt_timeout = Some 60000,
            opt_resetTimeout = Some 10000\<rparr> 0)
        [(1000, Threw ''e'', 10), (2000, TimedOut, 60000), (70000, Threw ''e'', 10)]
        (Some (Inr ''busy''))) = OPEN
   \<and> nextAttempt (execute_all (new_CircuitBreaker \<lparr>opt_failureThreshold = Some 3,
            opt_successThreshold = Some 1, opt_timeout = Some 60000,
            opt_resetTimeout = Some 10000\<rparr> 0)
        [(1000, Threw ''e'', 10), (2000, TimedOut, 60000), (70000, Threw ''e'', 10)]
        (Some (Inr ''busy''))) = 80010
   \<and> \<not> invoked (execute (execute_all (new_CircuitBreaker \<lparr>opt_failureThreshold = Some 3,
            opt_successThreshold = Some 1, opt_timeout = Some 60000,
            opt_resetTimeout = Some 10000\<rparr> 0)
        [(1000, Threw ''e'', 10), (2000, TimedOut, 60000), (70000, Threw ''e'', 10)]
        (Some (Inr ''busy''))) 80009 (Returned ''hello'', 10) (Some (Inr ''busy'')))
   \<and> state (execute_all (execute_all (new_CircuitBreaker \<lparr>opt_failureThreshold = Some 3,
            opt_successThreshold = Some 1, opt_timeout = Some 60000,
            opt_resetTimeout = Some 10000\<rparr> 0)
        [(1000, Threw ''e'', 10), (2000, TimedOut, 60000), (70000, Threw ''e'', 10)]
        (Some (Inr ''busy''))) [(80010, Returned ''hello'', 10)] (Some (Inr ''busy''))) = CLOSED"
proof -
  let ?fb = "Some (Inr ''busy'') :: (string + string) option"
  let ?cb = "new_CircuitBreaker \<lparr>opt_failureThreshold = Some 3,
            opt_successThreshold = Some 1, opt_timeout = Some 60000,
            opt_resetTimeout = Some 10000\<rparr> 0"
  let ?fails = "[(1000, Threw ''e'', 10), (2000, TimedOut, 60000), (70000, Threw ''e'', 10)]
     :: string call list"
  let ?op = "execute_all ?cb ?fails ?fb"
  have inv: "breaker_inv ?cb"
    by (rule breaker_inv_new)
  have h1: "state ?cb = CLOSED \<and> failures ?cb = 0 \<and> length ?fails = failureThreshold ?cb \<and>
       (\<forall>c \<in> set ?fails. is_failure (fst (snd c)))"
    by (simp add: new_CircuitBreaker_def or_default_def is_failure_def)
  have o: "state ?op = OPEN \<and> nextAttempt ?op = 80010"
    using breaker_transitions [OF inv, of ?fails ?fb 0 "(Returned ''hello'', 10)" "[]"] h1
    by (simp add: finished_at_def new_CircuitBreaker_def or_default_def)
  have inv': "breaker_inv ?op"
    using inv by (rule breaker_inv_execute_all)
  have s: "successes ?op = 0" "successThreshold ?op = 1"
    by (simp_all add: new_CircuitBreaker_def or_default_def breaker_defs)
  have r: "\<not> invoked (execute ?op 80009 (Returned ''hello'', 10) ?fb)
      \<and> state (execute_all ?op [(80010, Returned ''hello'', 10)] ?fb) = CLOSED"
    using breaker_transitions [OF inv', of "[]" ?fb 80009 "(Returned ''hello'', 10)"
        "[(80010, Returned ''hello'', 10)]"] o s
    by (simp add: is_failure_def)
  from o r show ?thesis by simp
qed

text \<open>
  The claim as it was stated fails on the last point: with the constructor's defaults
  (5 failures, 2 successes), five failures open the breaker, a success after the reset
  timeout leaves it HALF_OPEN with the failure counter back at 0, and a timeout of the
  next call then leaves it HALF_OPEN instead of returning it to OPEN.
\<close>

theorem half_open_failure_counterexample:
  "state (execute_all (new_CircuitBreaker \<lparr>opt_failureThreshold = None, opt_successThreshold = None,
          opt_timeout = None, opt_resetTimeout = None\<rparr> 0)
        [(1000, Threw ''e'', 10), (2000, Threw ''e'', 10), (3000, Threw ''e'', 10),
         (4000, Threw ''e'', 10), (5000, Threw ''e'', 10), (40000, Returned ''ok'', 10)] None)
     = HALF_OPEN
   \<and> is_failure (fst (TimedOut :: string outcome, 60000 :: nat))
   \<and> state (breaker (execute
       (execute_all (new_CircuitBreaker \<lparr>opt_failureThreshold = None, opt_successThreshold = None,
          opt_timeout = None, opt_resetTimeout = None\<rparr> 0)
        [(1000, Threw ''e'', 10), (2000, Threw ''e'', 10), (3000, Threw ''e'', 10),
         (4000, Threw ''e'', 10), (5000, Threw ''e'', 10), (40000, Returned ''ok'', 10)] None)
       41000 (TimedOut, 60000) None)) \<noteq> OPEN"
  by (simp add: new_CircuitBreaker_def or_default_def breaker_defs)

text \<open>
  C10. With a fallback, \<open>execute\<close> never hands an error of \<open>fn\<close> to its caller: the
  result is the value \<open>fn\<close> resolved with when the call was let through and succeeded,
  and otherwise exactly what \<open>fallback()\<close> gives, both on a rejection while OPEN (where
  \<open>fn\<close> is not invoked) and on any failure of \<open>fn\<close>, a timeout included, in any state.
  So when \<open>fallback()\<close> returns a value, \<open>execute\<close> returns a value.
\<close>

theorem execute_with_fallback_never_throws:
  "result (execute cb now fn (Some fb)) =
     (if state cb = OPEN \<and> now < nextAttempt cb then fb
      else case fst fn of Returned v \<Rightarrow> Inr v | Threw e \<Rightarrow> fb | TimedOut \<Rightarrow> fb)
   \<and> (fb = Inr d \<longrightarrow> (\<exists>v. result (execute cb now fn (Some fb)) = Inr v))"
  by (cases "fst fn") (auto simp: breaker_defs use_fallback_def)

theorem execute_with_fallback_never_throws_witness:
  "result (execute (new_CircuitBreaker \<lparr>opt_failureThreshold = Some 3,
        opt_successThreshold = Some 1, opt_timeout = None, opt_resetTimeout = None\<rparr> 0) 7
      (Threw ''boom'', 5) (Some (Inr ''busy''))) = Inr ''busy''"
  using execute_with_fallback_never_throws
    [of "new_CircuitBreaker \<lparr>opt_failureThreshold = Some 3,
        opt_successThreshold = Some 1, opt_timeout = None, opt_resetTimeout = None\<rparr> 0"
        7 "(Threw ''boom'', 5)" "Inr ''busy''" "''busy''"]
  by (simp add: new_CircuitBreaker_def or_default_def)

section \<open>AI client (gemini.js): the retry loop around the breaker\<close>

text \<open>
  Of the AI client this models the statistics, the breaker it owns with the thresholds
  its constructor passes, and \<open>generateResponse\<close>. The body \<open>_generateResponseInternal\<close>
  talks to the remote provider; what it does on the attempt numbered \<open>k\<close> is the run
  \<open>runs k\<close>. \<open>pick k\<close> stands for the draw \<open>Math.floor(Math.random() * fallbacks.length)\<close>
  made on that attempt. The loop records the backoff delays it sleeps and counts the
  calls of \<open>execute\<close> it makes. Falling out of the \<open>for\<close> loop would return
  \<open>undefined\<close>, the response \<open>None\<close>.
\<close>

record gemini_stats =
  requests :: nat
  successful :: nat
  failed :: nat
  fallbacks :: nat

record GeminiAI =
  circuitBreaker :: CircuitBreaker
  ai_stats :: gemini_stats

definition new_GeminiAI :: "nat \<Rightarrow> GeminiAI" where
  "new_GeminiAI now =
     \<lparr> circuitBreaker = new_CircuitBreaker
         \<lparr> opt_failureThreshold = Some 3, opt_successThreshold = Some 1,
           opt_timeout = Some 60000, opt_resetTimeout = Some 10000 \<rparr> now,
       ai_stats = \<lparr> requests = 0, successful = 0, failed = 0, fallbacks = 0 \<rparr> \<rparr>"

definition fallback_messages :: "string list" where
  "fallback_messages =
     [''I'm currently experiencing high demand. Please try again in a moment.'',
      ''My AI service is temporarily busy. I'll be back shortly!'',
      ''I'm processing many requests right now. Please wait a moment and try again.'']"

definition pick_fallback :: "nat \<Rightarrow> string" where
  "pick_fallback r = fallback_messages ! (r mod length fallback_messages)"

definition maxRetries :: nat where
  "maxRetries = 2"

record generated =
  response :: "string option"
  slept :: "nat list"
  executions :: nat
  ai :: GeminiAI

definition after_execute :: "GeminiAI \<Rightarrow> string run \<Rightarrow> string executed \<Rightarrow> GeminiAI" where
  "after_execute g r ex =
     g\<lparr> circuitBreaker := breaker ex,
        ai_stats := (ai_stats g)
          \<lparr> successful := successful (ai_stats g) +
               (if invoked ex \<and> \<not> is_failure (fst r) then 1 else 0),
            fallbacks := fallbacks (ai_stats g) + (if fell_back ex then 1 else 0) \<rparr> \<rparr>"

function attempt_loop ::
  "GeminiAI \<Rightarrow> nat \<Rightarrow> nat \<Rightarrow> (nat \<Rightarrow> string run) \<Rightarrow> (nat \<Rightarrow> nat) \<Rightarrow> nat list \<Rightarrow> nat \<Rightarrow> generated"
where
  "attempt_loop g attempt now runs pick zs n =
     (if attempt \<le> maxRetries then
        (let backoffDelay = min (1000 * 2 ^ (attempt - 1)) 5000;
             zs1 = (if attempt > 0 then zs @ [backoffDelay] else zs);
             start = (if attempt > 0 then now + backoffDelay else now);
             ex = execute (circuitBreaker g) start (runs attempt)
                    (Some (Inr (pick_fallback (pick attempt))));
             g1 = after_execute g (runs attempt) ex
         in case result ex of
              Inr v \<Rightarrow> \<lparr> response = Some v, slept = zs1, executions = n + 1, ai = g1 \<rparr>
            | Inl e \<Rightarrow>
                if attempt = maxRetries
                then \<lparr> response = Some (pick_fallback (pick attempt)), slept = zs1,
                       executions = n + 1,
                       ai = g1\<lparr>ai_stats := (ai_stats g1)\<lparr>failed := failed (ai_stats g1) + 1\<rparr>\<rparr> \<rparr>
                else attempt_loop g1 (attempt + 1) (start + snd (runs attempt)) runs pick zs1 (n + 1))
      else \<lparr> response = None, slept = zs, executions = n, ai = g \<rparr>)"
  by pat_completeness auto
termination
  by (relation "measure (\<lambda>(g, attempt, now, runs, pick, zs, n). Suc maxRetries - attempt)") auto

declare attempt_loop.simps [simp del]

definition generateResponse ::
  "GeminiAI \<Rightarrow> nat \<Rightarrow> (nat \<Rightarrow> string run) \<Rightarrow> (nat \<Rightarrow> nat) \<Rightarrow> generated" where
  "generateResponse g now runs pick =
     attempt_loop (g\<lparr>ai_stats := (ai_stats g)\<lparr>requests := requests (ai_stats g) + 1\<rparr>\<rparr>)
       0 now runs pick [] 0"

lemma execute_fallback_value:
  "\<exists>v. result (execute cb now fn (Some (Inr d))) = Inr v"
  by (cases "fst fn") (auto simp: breaker_defs use_fallback_def)

lemma attempt_loop_first:
  "slept (attempt_loop g 0 now runs pick [] 0) = [] \<and>
   executions (attempt_loop g 0 now runs pick [] 0) = 1 \<and>
   response (attempt_loop g 0 now runs pick [] 0) =
     (case result (execute (circuitBreaker g) now (runs 0) (Some (Inr (pick_fallback (pick 0))))) of
        Inr v \<Rightarrow> Some v | Inl e \<Rightarrow> None)"
proof -
  obtain v where v: "result (execute (circuitBreaker g) now (runs 0)
      (Some (Inr (pick_fallback (pick 0))))) = Inr v"
    using execute_fallback_value [of "circuitBreaker g" now "runs 0" "pick_fallback (pick 0)"]
    by auto
  show ?thesis
    by (subst attempt_loop.simps, subst attempt_loop.simps, subst attempt_loop.simps)
       (simp add: v Let_def maxRetries_def)
qed

lemma generateResponse_never_retries:
  "slept (generateResponse g now runs pick) = [] \<and>
   executions (generateResponse g now runs pick) = 1 \<and>
   response (generateResponse g now runs pick) =
     Some (if (state (circuitBreaker g) = OPEN \<and> now < nextAttempt (circuitBreaker g))
              \<or> is_failure (fst (runs 0))
           then pick_fallback (pick 0)
           else (case fst (runs 0) of Returned v \<Rightarrow> v | _ \<Rightarrow> []))"
  unfolding generateResponse_def
  apply (simp add: attempt_loop_first)
  apply (cases "fst (runs 0)")
  apply (auto simp: breaker_defs use_fallback_def)
  done

text \<open>
  C4 says that after a failed first execution \<open>generateResponse\<close> retries up to twice
  with backoff and only then answers with an apology. On the code the fallback handed to
  \<open>execute\<close> turns every failure into a returned apology, so the \<open>catch\<close> branch that
  would retry is never reached: here the first attempt fails with a transient error and
  the second would have succeeded, yet the caller gets the apology after one execution
  and no backoff sleep.
\<close>

theorem generateResponse_first_failure:
  "response (generateResponse (new_GeminiAI 0) 1000
      (\<lambda>k. if k = 0 then (Threw ''503 Service Unavailable'', 200) else (Returned ''Hello!'', 300))
      (\<lambda>k. 0))
     = Some ''I'm currently experiencing high demand. Please try again in a moment.''
   \<and> executions (generateResponse (new_GeminiAI 0) 1000
      (\<lambda>k. if k = 0 then (Threw ''503 Service Unavailable'', 200) else (Returned ''Hello!'', 300))
      (\<lambda>k. 0)) = 1
   \<and> slept (generateResponse (new_GeminiAI 0) 1000
      (\<lambda>k. if k = 0 then (Threw ''503 Service Unavailable'', 200) else (Returned ''Hello!'', 300))
      (\<lambda>k. 0)) = []"
  by (simp add: generateResponse_never_retries is_failure_def pick_fallback_def
        fallback_messages_def new_GeminiAI_def new_CircuitBreaker_def)


section \<open>Rate limiter (ratelimiter.js)\<close>

text \<open>
  Token counts are JavaScript numbers with a fractional part, since a refill adds
  \<open>(timePassed / 1000) * refillRate\<close> tokens; they are modelled as exact rationals.
  \<open>maxTokens\<close>, \<open>refillRate\<close> and the cost of a request are whole numbers (the bot
  reads them with \<open>parseInt\<close>). The reads of \<open>Date.now()\<close> inside one synchronous
  check are a single time \<open>now\<close>.
\<close>

record bucket =
  tokens :: rat
  lastRefill :: nat

record RateLimiter =
  maxTokens :: nat
  refillRate :: nat
  windowMs :: nat
  buckets :: "string \<rightharpoonup> bucket"
  globalBucket :: bucket

definition new_RateLimiter :: "nat option \<Rightarrow> nat option \<Rightarrow> nat option \<Rightarrow> nat \<Rightarrow> RateLimiter" where
  "new_RateLimiter opt_maxTokens opt_refillRate opt_windowMs now =
     \<lparr> maxTokens = or_default opt_maxTokens 100,
       refillRate = or_default opt_refillRate 10,
       windowMs = or_default opt_windowMs 60000,
       buckets = Map.empty,
       globalBucket = \<lparr> tokens = of_nat (or_default opt_maxTokens 100), lastRefill = now \<rparr> \<rparr>"

definition refillBucket :: "RateLimiter \<Rightarrow> bucket \<Rightarrow> nat \<Rightarrow> bucket" where
  "refillBucket rl b now =
     (let timePassed = int now - int (lastRefill b);
          tokensToAdd = (of_int timePassed / 1000) * of_nat (refillRate rl)
      in b\<lparr> tokens := min (of_nat (maxTokens rl)) (tokens b + tokensToAdd), lastRefill := now \<rparr>)"

definition getRetryAfter :: "RateLimiter \<Rightarrow> bucket \<Rightarrow> int" where
  "getRetryAfter rl b =
     (let tokensNeeded = 1 - tokens b;
          secondsToWait = \<lceil>tokensNeeded / of_nat (refillRate rl)\<rceil>
      in max 1 secondsToWait)"

definition checkGlobalLimit :: "RateLimiter \<Rightarrow> nat \<Rightarrow> nat \<Rightarrow> bool \<times> RateLimiter" where
  "checkGlobalLimit rl cost now =
     (let g = refillBucket rl (globalBucket rl) now
      in if tokens g \<ge> of_nat cost
         then (True, rl\<lparr>globalBucket := g\<lparr>tokens := tokens g - of_nat cost\<rparr>\<rparr>)
         else (False, rl\<lparr>globalBucket := g\<rparr>))"

definition getUserBucket :: "RateLimiter \<Rightarrow> string \<Rightarrow> nat \<Rightarrow> bucket \<times> RateLimiter" where
  "getUserBucket rl userId now =
     (let b0 = (case buckets rl userId of
                  None \<Rightarrow> \<lparr> tokens = of_nat (maxTokens rl), lastRefill = now \<rparr>
                | Some b \<Rightarrow> b);
          b = refillBucket rl b0 now
      in (b, rl\<lparr>buckets := (buckets rl)(userId \<mapsto> b)\<rparr>))"

datatype limit_result = Allowed | Denied (reason: string) (retryAfter: int)

definition checkLimit :: "RateLimiter \<Rightarrow> string \<Rightarrow> nat \<Rightarrow> nat \<Rightarrow> limit_result \<times> RateLimiter" where
  "checkLimit rl userId cost now =
     (case checkGlobalLimit rl cost now of
        (False, rl1) \<Rightarrow>
          (Denied ''Global rate limit exceeded. Please try again later.''
             (getRetryAfter rl1 (globalBucket rl1)), rl1)
      | (True, rl1) \<Rightarrow>
          (case getUserBucket rl1 userId now of
             (b, rl2) \<Rightarrow>
               if tokens b \<ge> of_nat cost
               then (Allowed, rl2\<lparr>buckets := (buckets rl2)(userId \<mapsto> b\<lparr>tokens := tokens b - of_nat cost\<rparr>)\<rparr>)
               else (Denied ''Rate limit exceeded. Please wait before sending more messages.''
                       (getRetryAfter rl2 b), rl2)))"

lemmas limiter_defs = checkLimit_def checkGlobalLimit_def getUserBucket_def refillBucket_def
  getRetryAfter_def Let_def

definition user_tokens :: "RateLimiter \<Rightarrow> string \<Rightarrow> nat \<Rightarrow> rat" where
  "user_tokens rl userId now = tokens (fst (getUserBucket rl userId now))"

lemma global_denial_first:
  assumes "tokens (refillBucket rl (globalBucket rl) now) < of_nat cost"
  shows "checkLimit rl userId cost now =
     (Denied ''Global rate limit exceeded. Please try again later.''
        (max 1 \<lceil>(1 - tokens (refillBucket rl (globalBucket rl) now)) / of_nat (refillRate rl)\<rceil>),
      rl\<lparr>globalBucket := refillBucket rl (globalBucket rl) now\<rparr>)"
  using assms by (simp add: checkLimit_def checkGlobalLimit_def getRetryAfter_def Let_def)

lemma user_denial:
  assumes "of_nat cost \<le> tokens (refillBucket rl (globalBucket rl) now)"
    and "user_tokens rl userId now < of_nat cost"
  shows "fst (checkLimit rl userId cost now) =
     Denied ''Rate limit exceeded. Please wait before sending more messages.''
        (max 1 \<lceil>(1 - user_tokens rl userId now) / of_nat (refillRate rl)\<rceil>)"
  using assms
  by (simp add: checkLimit_def checkGlobalLimit_def getRetryAfter_def Let_def user_tokens_def
      getUserBucket_def refillBucket_def split: option.splits)


lemma drained_limiter:
  "snd (checkLimit (new_RateLimiter (Some 50) (Some 5) (Some 60000) 0) ''alice'' 50 0)
   = \<lparr> maxTokens = 50, refillRate = 5, windowMs = 60000,
       buckets = [''alice'' \<mapsto> \<lparr> tokens = 0, lastRefill = 0 \<rparr>],
       globalBucket = \<lparr> tokens = 0, lastRefill = 0 \<rparr> \<rparr>"
  by (simp add: new_RateLimiter_def or_default_def limiter_defs)

lemma drained_limiter_allowed:
  "fst (checkLimit (new_RateLimiter (Some 50) (Some 5) (Some 60000) 0) ''alice'' 50 0) = Allowed"
  by (simp add: new_RateLimiter_def or_default_def limiter_defs)

lemma drained_limiter_denied:
  "checkLimit \<lparr> maxTokens = 50, refillRate = 5, windowMs = 60000,
       buckets = [''alice'' \<mapsto> \<lparr> tokens = 0, lastRefill = 0 \<rparr>],
       globalBucket = \<lparr> tokens = 0, lastRefill = 0 \<rparr> \<rparr> ''alice'' 50 0
   = (Denied ''Global rate limit exceeded. Please try again later.'' 1,
      \<lparr> maxTokens = 50, refillRate = 5, windowMs = 60000,
       buckets = [''alice'' \<mapsto> \<lparr> tokens = 0, lastRefill = 0 \<rparr>],
       globalBucket = \<lparr> tokens = 0, lastRefill = 0 \<rparr> \<rparr>)"
  by (simp add: limiter_defs)

text \<open>
  C7 gives the wait reported with a denial as \<open>ceil((cost - tokens) / refillRate)\<close>, at
  least 1. \<open>getRetryAfter\<close> computes it from the constant 1 instead of the cost the
  check was made with. With the bot's limits (50 tokens, 5 per second), a request of
  cost 50 at time 0 empties the global bucket; a second one is denied with
  \<open>retryAfter = 1\<close>, where the formula of the claim gives 10, and the same request made
  again one second later, as the reply suggests, is denied again. That the global denial
  is the one reported, and the wait for cost 1, are \<open>global_denial_first\<close> and
  \<open>user_denial\<close> above.
\<close>

theorem retryAfter_ignores_cost:
  "fst (checkLimit
     (snd (checkLimit (new_RateLimiter (Some 50) (Some 5) (Some 60000) 0) ''alice'' 50 0))
     ''alice'' 50 0)
   = Denied ''Global rate limit exceeded. Please try again later.'' 1
   \<and> max 1 \<lceil>(50 - tokens (refillBucket
        (snd (checkLimit (new_RateLimiter (Some 50) (Some 5) (Some 60000) 0) ''alice'' 50 0))
        (globalBucket
          (snd (checkLimit (new_RateLimiter (Some 50) (Some 5) (Some 60000) 0) ''alice'' 50 0)))
        0)) / 5\<rceil> = (10 :: int)
   \<and> fst (checkLimit
     (snd (checkLimit
       (snd (checkLimit (new_RateLimiter (Some 50) (Some 5) (Some 60000) 0) ''alice'' 50 0))
       ''alice'' 50 0))
     ''alice'' 50 1000)
   = Denied ''Global rate limit exceeded. Please try again later.'' 1"
  unfolding drained_limiter drained_limiter_denied
  by (simp add: limiter_defs)


section \<open>Balance-intent classifier (NostrBot.isBalanceRequest)\<close>

text \<open>
  Strings are lists of characters; the string functions of JavaScript used by the
  classifier are written out for ASCII text: \<open>toLowerCase\<close> maps A-Z to a-z, and white
  space (\<open>\s\<close> and what \<open>trim\<close> strips) is space, tab, line feed, vertical tab, form
  feed and carriage return. \<open>split_spaces False [] s\<close> is \<open>s.split(/\s+/)\<close>.
  \<open>str_includes s sub\<close> is \<open>s.includes(sub)\<close>.
\<close>

definition lower :: "char \<Rightarrow> char" where
  "lower c = (case map_of (zip ''ABCDEFGHIJKLMNOPQRSTUVWXYZ'' ''abcdefghijklmnopqrstuvwxyz'') c of
                Some l \<Rightarrow> l | None \<Rightarrow> c)"

definition toLowerCase :: "string \<Rightarrow> string" where
  "toLowerCase s = map lower s"

definition is_space :: "char \<Rightarrow> bool" where
  "is_space c = (c \<in> set [CHR '' '', CHR 0x09, CHR 0x0A, CHR 0x0B, CHR 0x0C, CHR 0x0D])"

definition trim :: "string \<Rightarrow> string" where
  "trim s = rev (dropWhile is_space (rev (dropWhile is_space s)))"

fun startsWith :: "string \<Rightarrow> string \<Rightarrow> bool" where
  "startsWith s [] = True"
| "startsWith [] (p # ps) = False"
| "startsWith (c # cs) (p # ps) = (c = p \<and> startsWith cs ps)"

fun str_includes :: "string \<Rightarrow> string \<Rightarrow> bool" where
  "str_includes [] sub = startsWith [] sub"
| "str_includes (c # cs) sub = (startsWith (c # cs) sub \<or> str_includes cs sub)"

fun endsWith :: "string \<Rightarrow> string \<Rightarrow> bool" where
  "endsWith s suffix = startsWith (rev s) (rev suffix)"

fun split_spaces :: "bool \<Rightarrow> string \<Rightarrow> string \<Rightarrow> string list" where
  "split_spaces insep cur [] = [rev cur]"
| "split_spaces insep cur (c # cs) =
     (if is_space c
      then (if insep then split_spaces True cur cs else rev cur # split_spaces True [] cs)
      else split_spaces False (c # cur) cs)"

text \<open>
  \<open>levenshteinDistance\<close> fills the matrix row by row. \<open>fill_row c str2 prev left\<close>
  computes the entries \<open>matrix[i][j]\<close>, \<open>j \<ge> 1\<close>, of the row of the character \<open>c\<close> from the
  row above (\<open>prev\<close>, starting at column \<open>j - 1\<close>) and the entry to the left; the row
  starts with \<open>matrix[i][0] = i\<close>, and row 0 is \<open>0, 1, ..., len2\<close>. The result is the
  last entry of the last row.
\<close>

fun fill_row :: "char \<Rightarrow> string \<Rightarrow> nat list \<Rightarrow> nat \<Rightarrow> nat list" where
  "fill_row c (d # ds) (diag # up # ps) left =
     (let cost = (if c = d then 0 else 1);
          v = min (min (up + 1) (left + 1)) (diag + cost)
      in v # fill_row c ds (up # ps) v)"
| "fill_row c ds ps left = []"

fun fill_rows :: "nat \<Rightarrow> string \<Rightarrow> string \<Rightarrow> nat list \<Rightarrow> nat list" where
  "fill_rows i [] str2 prev = prev"
| "fill_rows i (c # cs) str2 prev = fill_rows (Suc i) cs str2 (i # fill_row c str2 prev i)"

definition levenshteinDistance :: "string \<Rightarrow> string \<Rightarrow> nat" where
  "levenshteinDistance str1 str2 = last (fill_rows 1 str1 str2 [0 ..< Suc (length str2)])"

text \<open>
  The regular expressions of the pattern list, matched by derivatives. \<open>anchored\<close> is a
  pattern between \<open>^\<close> and \<open>$\<close>, \<open>unanchored\<close> one that may match anywhere. The patterns
  carry the flag \<open>i\<close>, which changes nothing on the lower-cased message.
\<close>

datatype regex = Never | Empty | Lit char | Space | AnyChar | Seq regex regex | Alt regex regex | Star regex

fun nullable :: "regex \<Rightarrow> bool" where
  "nullable Never = False"
| "nullable Empty = True"
| "nullable (Lit c) = False"
| "nullable Space = False"
| "nullable AnyChar = False"
| "nullable (Seq r s) = (nullable r \<and> nullable s)"
| "nullable (Alt r s) = (nullable r \<or> nullable s)"
| "nullable (Star r) = True"

fun deriv :: "char \<Rightarrow> regex \<Rightarrow> regex" where
  "deriv c Never = Never"
| "deriv c Empty = Never"
| "deriv c (Lit d) = (if c = d then Empty else Never)"
| "deriv c Space = (if is_space c then Empty else Never)"
| "deriv c AnyChar = Empty"
| "deriv c (Seq r s) =
     (if nullable r then Alt (Seq (deriv c r) s) (deriv c s) else Seq (deriv c r) s)"
| "deriv c (Alt r s) = Alt (deriv c r) (deriv c s)"
| "deriv c (Star r) = Seq (deriv c r) (Star r)"

fun matches :: "regex \<Rightarrow> string \<Rightarrow> bool" where
  "matches r [] = nullable r"
| "matches r (c # cs) = matches (deriv c r) cs"

definition word :: "string \<Rightarrow> regex" where
  "word s = foldr (\<lambda>c r. Seq (Lit c) r) s Empty"

definition optional :: "regex \<Rightarrow> regex" where
  "optional r = Alt r Empty"

definition spaces :: regex where
  "spaces = Seq Space (Star Space)"

definition one_of :: "regex list \<Rightarrow> regex" where
  "one_of rs = foldr Alt rs Never"

definition anchored :: "regex list \<Rightarrow> string \<Rightarrow> bool" where
  "anchored rs s = matches (foldr Seq rs Empty) s"

definition unanchored :: "regex list \<Rightarrow> string \<Rightarrow> bool" where
  "unanchored rs s = matches (Seq (Star AnyChar) (Seq (foldr Seq rs Empty) (Star AnyChar))) s"

definition patterns :: "(string \<Rightarrow> bool) list" where
  "patterns =
     [anchored [word ''balance'', optional (Lit CHR ''?'')],
      anchored [word ''my'', spaces, word ''balance'', optional (Lit CHR ''?'')],
      unanchored [word ''how'', spaces, one_of [word ''much'', word ''many''], spaces,
                  one_of [Seq (word ''sat'') (optional (Lit CHR ''s'')), word ''credit'', word ''balance'']],
      unanchored [word ''check'', spaces, optional (Seq (word ''my'') spaces),
                  one_of [word ''balance'', word ''credit'', word ''wallet'']],
      unanchored [word ''show'', spaces, optional (Seq (word ''my'') spaces),
                  one_of [word ''balance'', word ''credit'', word ''wallet'']],
      anchored [one_of [Seq (word ''cr'') (Seq (one_of [Lit CHR ''e'', Lit CHR ''a'', Lit CHR ''i'']) (word ''dit'')),
                        Seq (word ''wall'') (Seq (one_of [Lit CHR ''e'', Lit CHR ''a'', Lit CHR ''i'']) (word ''t'')),
                        Seq (word ''sat'') (optional (Lit CHR ''s''))],
                optional (Lit CHR ''?'')]]"

definition profileKeywords :: "string list" where
  "profileKeywords = [''identity'', ''nip05'', ''profile'', ''name'', ''who am i'', ''about me'',
                      ''information about me'']"

definition targetWords :: "string list" where
  "targetWords = [''balance'', ''credit'', ''wallet'', ''sats'']"

definition contextWords :: "string list" where
  "contextWords = [''my'', ''check'', ''show'', ''what'', ''how much'', ''how many'']"

definition has_context :: "string \<Rightarrow> bool" where
  "has_context normalizedMsg =
     (list_ex (str_includes normalizedMsg) contextWords \<or> endsWith normalizedMsg ''?'')"

text \<open>
  \<open>Math.floor(target.length * 0.3)\<close>: for the four target words (lengths 7, 6, 6, 4) the
  floating-point product floors to 2, 1, 1, 1, as the integer quotient here does.
\<close>

definition maxDistance :: "string \<Rightarrow> nat" where
  "maxDistance target = (length target * 3) div 10"

text \<open>
  The two nested loops return true at the first word of at least 3 characters and
  target within the allowed distance for which the context test or the single-word test
  holds; the loop body changes nothing, so the loops are an existence test.
\<close>

definition fuzzy_match :: "string \<Rightarrow> string list \<Rightarrow> bool" where
  "fuzzy_match normalizedMsg words =
     list_ex (\<lambda>w. 3 \<le> length w \<and>
        list_ex (\<lambda>target.
           (let distance = levenshteinDistance w target
            in distance \<le> maxDistance target \<and>
               (has_context normalizedMsg \<or> (length words = 1 \<and> distance \<le> 1))))
         targetWords) words"

definition isBalanceRequest :: "string \<Rightarrow> bool" where
  "isBalanceRequest message =
     (if message = [] then False
      else (let normalizedMsg = trim (toLowerCase message)
            in if list_ex (str_includes normalizedMsg) profileKeywords then False
               else if fuzzy_match normalizedMsg (split_spaces False [] normalizedMsg) then True
               else list_ex (\<lambda>p. p normalizedMsg) patterns))"


text \<open>
  C8. The classifier is a function of the message text alone. On the two inputs of the
  specification: \<open>chek my balnce?\<close> is a balance request (the word \<open>balnce?\<close> is within
  the allowed distance of \<open>balance\<close>, and the message contains the context word \<open>my\<close>),
  and \<open>tell me about my profile\<close> is not one (it contains the exclusion term \<open>profile\<close>).
\<close>

theorem isBalanceRequest_examples:
  "isBalanceRequest ''chek my balnce?''
   \<and> levenshteinDistance ''balnce?'' ''balance'' \<le> maxDistance ''balance''
   \<and> str_includes (trim (toLowerCase ''chek my balnce?'')) ''my''
   \<and> \<not> isBalanceRequest ''tell me about my profile''
   \<and> str_includes (trim (toLowerCase ''tell me about my profile'')) ''profile''"
  by code_simp


section \<open>Conversation store (database.js)\<close>

text \<open>
  The store is an ordered key/value database. Its four families of keys have distinct
  literal prefixes (\<open>session:meta:\<close>, \<open>session:messages:\<close>, \<open>user:sessions:\<close>,
  \<open>event:processed:\<close>), so each family is a map of its own here, keyed by what follows
  the prefix: \<open>pubkey:sessionId\<close> for the first two (\<open>session_key\<close>), the pubkey for the
  third, the event id for the last. A value that JavaScript tests for truthiness is an
  option: \<open>truthy\<close> takes the empty string, and \<open>truthy_num\<close> the number 0, to \<open>None\<close>.
  \<open>now\<close> is the reading of \<open>Date.now()\<close> and \<open>uuid\<close> the result of \<open>randomUUID()\<close>. A
  thrown error is \<open>Inl\<close> of its message. The store is taken to be initialised and its
  reads and writes not to fail.
\<close>

record message_record =
  mr_pubkey :: string
  mr_sessionId :: string
  message :: string
  isFromBot :: bool
  mr_timestamp :: nat
  messageType :: string
  replyTo :: "string option"
  eventId :: "string option"
  eventKind :: "nat option"
  userMetadata :: "string option"

record session_meta =
  sm_pubkey :: string
  sm_sessionId :: string
  createdAt :: nat
  lastMessageAt :: nat
  messageCount :: nat
  origin :: "string option"
  label :: "string option"
  lastTouchedAt :: "nat option"

record processed_marker =
  pe_sessionId :: string
  pe_timestamp :: nat

record Database =
  sessionMeta :: "string \<rightharpoonup> session_meta"
  sessionMessages :: "string \<rightharpoonup> message_record list"
  userSessions :: "string \<rightharpoonup> string list"
  eventProcessed :: "string \<rightharpoonup> processed_marker"


definition truthy :: "string option \<Rightarrow> string option" where
  "truthy x = (case x of None \<Rightarrow> None | Some s \<Rightarrow> if s = [] then None else Some s)"

definition truthy_num :: "nat option \<Rightarrow> nat option" where
  "truthy_num x = (case x of None \<Rightarrow> None | Some n \<Rightarrow> if n = 0 then None else Some n)"

definition or_else :: "'a option \<Rightarrow> 'a option \<Rightarrow> 'a option" where
  "or_else x y = (case x of Some v \<Rightarrow> Some v | None \<Rightarrow> y)"

definition sanitizePubkey :: "string \<Rightarrow> string" where
  "sanitizePubkey pubkey = (if pubkey = [] then [] else toLowerCase (trim pubkey))"

definition sanitizeSessionId :: "string option \<Rightarrow> string" where
  "sanitizeSessionId sessionId =
     (case truthy sessionId of None \<Rightarrow> [] | Some s \<Rightarrow> take 120 (trim s))"

definition digit :: "nat \<Rightarrow> char" where
  "digit d = ''0123456789'' ! (d mod 10)"

function decimal :: "nat \<Rightarrow> string" where
  "decimal n = (if n < 10 then [digit n] else decimal (n div 10) @ [digit (n mod 10)])"
  by pat_completeness auto
termination
  by (relation "measure id") auto

declare decimal.simps [simp del]

definition session_key :: "string \<Rightarrow> string \<Rightarrow> string" where
  "session_key normalizedPubkey sessionId = normalizedPubkey @ '':'' @ sessionId"

record session_request =
  source :: "string option"
  sessionLabel :: "string option"
  touch :: bool

record ensured =
  es_sessionId :: string
  isNew :: bool
  es_db :: Database

definition resolve_sessionId :: "string option \<Rightarrow> nat \<Rightarrow> string \<Rightarrow> string" where
  "resolve_sessionId requestedSessionId now uuid =
     (if sanitizeSessionId requestedSessionId \<noteq> []
      then sanitizeSessionId requestedSessionId
      else ''session-'' @ decimal now @ ''-'' @ take 8 uuid)"

definition create_session ::
  "Database \<Rightarrow> string \<Rightarrow> string \<Rightarrow> session_request \<Rightarrow> nat \<Rightarrow> Database" where
  "create_session db normalizedPubkey sessionId metadata now =
     (let key = session_key normalizedPubkey sessionId;
          created = \<lparr> sm_pubkey = normalizedPubkey, sm_sessionId = sessionId,
                       createdAt = now, lastMessageAt = now, messageCount = 0,
                       origin = truthy (source metadata),
                       label = truthy (sessionLabel metadata),
                       lastTouchedAt = None \<rparr>;
          sessions = (case userSessions db normalizedPubkey of None \<Rightarrow> [] | Some l \<Rightarrow> l)
      in db\<lparr> sessionMeta := (sessionMeta db)(key \<mapsto> created),
             sessionMessages := (sessionMessages db)(key \<mapsto> []),
             userSessions :=
               (if sessionId \<in> set sessions then userSessions db
                else (userSessions db)(normalizedPubkey \<mapsto> sessions @ [sessionId])) \<rparr>)"

definition refresh_meta :: "session_meta \<Rightarrow> session_request \<Rightarrow> nat \<Rightarrow> session_meta \<times> bool" where
  "refresh_meta found metadata now =
     (let d1 = (truthy (source metadata) \<noteq> None \<and> truthy (origin found) = None);
          m1 = (if d1 then found\<lparr>origin := source metadata\<rparr> else found);
          d2 = (truthy (sessionLabel metadata) \<noteq> None \<and> label m1 \<noteq> sessionLabel metadata);
          m2 = (if d2 then m1\<lparr>label := sessionLabel metadata\<rparr> else m1);
          d3 = touch metadata;
          m3 = (if d3 then m2\<lparr>lastTouchedAt := Some now\<rparr> else m2)
      in (m3, d1 \<or> d2 \<or> d3))"

definition ensureSession ::
  "Database \<Rightarrow> string \<Rightarrow> string option \<Rightarrow> session_request \<Rightarrow> nat \<Rightarrow> string
     \<Rightarrow> string + ensured" where
  "ensureSession db pubkey requestedSessionId metadata now uuid =
     (let normalizedPubkey = sanitizePubkey pubkey
      in if normalizedPubkey = [] then Inl ''Valid pubkey is required''
         else
          (let sessionId = resolve_sessionId requestedSessionId now uuid;
               key = session_key normalizedPubkey sessionId
           in case sessionMeta db key of
                None \<Rightarrow>
                  Inr \<lparr> es_sessionId = sessionId, isNew = True,
                         es_db = create_session db normalizedPubkey sessionId metadata now \<rparr>
              | Some found \<Rightarrow>
                  (let refreshed = refresh_meta found metadata now
                   in Inr \<lparr> es_sessionId = sessionId, isNew = False,
                            es_db = (if snd refreshed
                                     then db\<lparr>sessionMeta := (sessionMeta db)(key \<mapsto> fst refreshed)\<rparr>
                                     else db) \<rparr>)))"

record message_metadata =
  md_timestamp :: "nat option"
  md_eventId :: "string option"
  md_eventKind :: "nat option"
  md_messageType :: "string option"
  md_sessionId :: "string option"
  md_replyTo :: "string option"
  md_userMetadata :: "string option"
  md_messageSource :: "string option"
  md_sessionLabel :: "string option"

record saved =
  duplicate :: bool
  sessionId :: string
  timestamp :: nat
  saved_messageCount :: "nat option"
  db_after :: Database

definition DM_KIND :: nat where "DM_KIND = 4"
definition PUBLIC_KIND :: nat where "PUBLIC_KIND = 1"

definition message_source :: "message_metadata \<Rightarrow> string option" where
  "message_source metadata =
     or_else (truthy (md_messageSource metadata))
       (if md_eventKind metadata = Some DM_KIND then Some ''dm''
        else if md_eventKind metadata = Some PUBLIC_KIND then Some ''public''
        else (case truthy_num (md_eventKind metadata) of
                Some k \<Rightarrow> Some (''kind-'' @ decimal k) | None \<Rightarrow> None))"

definition slice_last :: "nat \<Rightarrow> 'a list \<Rightarrow> 'a list" where
  "slice_last n xs = drop (length xs - n) xs"

definition stored_messages :: "Database \<Rightarrow> string \<Rightarrow> message_record list" where
  "stored_messages db key = (case sessionMessages db key of None \<Rightarrow> [] | Some ms \<Rightarrow> ms)"

definition new_record ::
  "string \<Rightarrow> string \<Rightarrow> string \<Rightarrow> bool \<Rightarrow> nat \<Rightarrow> message_metadata \<Rightarrow> message_record" where
  "new_record normalizedPubkey sid content fromBot ts metadata =
     \<lparr> mr_pubkey = normalizedPubkey, mr_sessionId = sid,
       message = content, isFromBot = fromBot, mr_timestamp = ts,
       messageType =
         (case truthy (md_messageType metadata) of
            Some t \<Rightarrow> t
          | None \<Rightarrow> if fromBot then ''response'' else ''question''),
       replyTo = truthy (md_replyTo metadata),
       eventId = truthy (md_eventId metadata),
       eventKind = truthy_num (md_eventKind metadata),
       userMetadata = truthy (md_userMetadata metadata) \<rparr>"

definition push_message :: "message_record list \<Rightarrow> message_record \<Rightarrow> message_record list" where
  "push_message stored messageRecord =
     (let pushed = stored @ [messageRecord]
      in if length pushed > 1000 then slice_last 1000 pushed else pushed)"

definition store_message ::
  "Database \<Rightarrow> string \<Rightarrow> string \<Rightarrow> message_record \<Rightarrow> string option \<Rightarrow> nat \<Rightarrow> Database" where
  "store_message db1 key sid messageRecord event ts =
     (let messages = push_message (stored_messages db1 key) messageRecord;
          db2 = db1\<lparr>sessionMessages := (sessionMessages db1)(key \<mapsto> messages)\<rparr>;
          db3 = (case event of
                   None \<Rightarrow> db2
                 | Some e \<Rightarrow>
                     db2\<lparr>eventProcessed := (eventProcessed db2)
                            (e \<mapsto> \<lparr> pe_sessionId = sid, pe_timestamp = ts \<rparr>)\<rparr>)
      in case sessionMeta db3 key of
           None \<Rightarrow> db3
         | Some m \<Rightarrow>
             db3\<lparr>sessionMeta := (sessionMeta db3)
                    (key \<mapsto> m\<lparr> lastMessageAt := ts, messageCount := length messages \<rparr>)\<rparr>)"

definition saveMessage ::
  "Database \<Rightarrow> string \<Rightarrow> string \<Rightarrow> bool \<Rightarrow> message_metadata \<Rightarrow> nat \<Rightarrow> string
     \<Rightarrow> string + saved" where
  "saveMessage db pubkey content fromBot metadata now uuid =
     (let normalizedPubkey = sanitizePubkey pubkey
      in if normalizedPubkey = [] then Inl ''Valid pubkey is required''
         else
          (let ts = (case md_timestamp metadata of Some t \<Rightarrow> t | None \<Rightarrow> now);
               seen = (case truthy (md_eventId metadata) of
                         None \<Rightarrow> None | Some e \<Rightarrow> eventProcessed db e)
           in case seen of
                Some isDuplicate \<Rightarrow>
                  Inr \<lparr> duplicate = True, sessionId = pe_sessionId isDuplicate,
                         timestamp = pe_timestamp isDuplicate, saved_messageCount = None,
                         db_after = db \<rparr>
              | None \<Rightarrow>
                 (case ensureSession db normalizedPubkey (md_sessionId metadata)
                         \<lparr> source = message_source metadata,
                           sessionLabel = md_sessionLabel metadata, touch = False \<rparr> now uuid of
                    Inl err \<Rightarrow> Inl err
                  | Inr es \<Rightarrow>
                     (let sid = es_sessionId es;
                          key = session_key normalizedPubkey sid;
                          messageRecord = new_record normalizedPubkey sid content fromBot ts metadata;
                          db4 = store_message (es_db es) key sid messageRecord
                                  (truthy (md_eventId metadata)) ts
                      in Inr \<lparr> duplicate = False, sessionId = sid, timestamp = ts,
                               saved_messageCount =
                                 Some (length (push_message (stored_messages (es_db es) key)
                                                  messageRecord)),
                               db_after = db4 \<rparr>))))"

definition log_inv :: "Database \<Rightarrow> bool" where
  "log_inv db =
     (\<forall>key m. sessionMeta db key = Some m \<longrightarrow>
        messageCount m = length (stored_messages db key) \<and>
        length (stored_messages db key) \<le> 1000)"

definition message_ts :: "message_metadata \<Rightarrow> nat \<Rightarrow> nat" where
  "message_ts metadata now = (case md_timestamp metadata of Some t \<Rightarrow> t | None \<Rightarrow> now)"



section \<open>Properties of the conversation store\<close>

lemma toLowerCase_map: "toLowerCase s = map lower s"
  by (simp add: toLowerCase_def)

lemma lower_idem: "lower (lower c) = lower c"
  by (simp add: lower_def)

lemma is_space_lower: "is_space (lower c) = is_space c"
  by (auto simp add: lower_def is_space_def)

lemma trim_lower: "trim (map lower s) = map lower (trim s)"
proof -
  have c: "is_space \<circ> lower = is_space"
    by (simp add: fun_eq_iff is_space_lower)
  show ?thesis
    by (simp add: trim_def dropWhile_map rev_map c)
qed

lemma trim_idem: "trim (trim s) = trim s"
proof -
  let ?A = "dropWhile is_space s"
  let ?B = "dropWhile is_space (rev ?A)"
  have split: "rev ?A = takeWhile is_space (rev ?A) @ ?B"
    by simp
  have front: "dropWhile is_space (rev ?B) = rev ?B"
  proof (cases "?B = []")
    case True
    then show ?thesis by (simp only: rev.simps dropWhile.simps)
  next
    case False
    have "?A = rev ?B @ rev (takeWhile is_space (rev ?A))"
      by (metis rev_append rev_rev_ident takeWhile_dropWhile_id)
    then have "hd ?A = hd (rev ?B)"
      using False by (metis hd_append2 rev_is_Nil_conv)
    moreover have "?A \<noteq> []"
    proof
      assume "?A = []"
      then have "?B = []" by (simp only: rev.simps dropWhile.simps)
      with False show False ..
    qed
    then have "\<not> is_space (hd ?A)" by (rule hd_dropWhile)
    ultimately show ?thesis
      by (simp add: dropWhile_eq_self_iff)
  qed
  have "trim (trim s) = rev (dropWhile is_space (rev (dropWhile is_space (rev ?B))))"
    by (simp add: trim_def)
  also have "\<dots> = rev (dropWhile is_space ?B)"
    by (simp add: front)
  also have "\<dots> = rev ?B"
    by simp
  finally show ?thesis by (simp add: trim_def)
qed

lemma sanitizePubkey_idem: "sanitizePubkey (sanitizePubkey p) = sanitizePubkey p"
  by (simp add: sanitizePubkey_def toLowerCase_map trim_lower trim_idem lower_idem)

lemma refresh_meta_count [simp]:
  "messageCount (fst (refresh_meta found metadata now)) = messageCount found"
  by (simp add: refresh_meta_def Let_def)

lemma ensureSession_total:
  "sanitizePubkey pubkey \<noteq> [] \<Longrightarrow> \<exists>es. ensureSession db pubkey req md now uuid = Inr es"
  by (simp add: ensureSession_def Let_def split: option.splits)

lemma ensureSession_effect:
  assumes "ensureSession db pubkey req md now uuid = Inr es"
  shows "es_sessionId es = resolve_sessionId req now uuid"
    and "eventProcessed (es_db es) = eventProcessed db"
    and "\<exists>m. sessionMeta (es_db es) (session_key (sanitizePubkey pubkey) (es_sessionId es)) = Some m"
    and "stored_messages (es_db es) (session_key (sanitizePubkey pubkey) (es_sessionId es)) =
           (if sessionMeta db (session_key (sanitizePubkey pubkey) (es_sessionId es)) = None
            then [] else stored_messages db (session_key (sanitizePubkey pubkey) (es_sessionId es)))"
    and "\<And>k. k \<noteq> session_key (sanitizePubkey pubkey) (es_sessionId es) \<Longrightarrow>
           sessionMeta (es_db es) k = sessionMeta db k \<and>
           sessionMessages (es_db es) k = sessionMessages db k"
proof -
  let ?key = "session_key (sanitizePubkey pubkey) (resolve_sessionId req now uuid)"
  have ne: "sanitizePubkey pubkey \<noteq> []"
    using assms by (auto simp: ensureSession_def Let_def split: if_splits)
  show sid: "es_sessionId es = resolve_sessionId req now uuid"
    using assms ne by (cases "sessionMeta db ?key") (auto simp: ensureSession_def Let_def)
  have es: "es_db es =
      (case sessionMeta db ?key of
         None \<Rightarrow> create_session db (sanitizePubkey pubkey) (resolve_sessionId req now uuid) md now
       | Some found \<Rightarrow>
           if snd (refresh_meta found md now)
           then db\<lparr>sessionMeta := (sessionMeta db)(?key \<mapsto> fst (refresh_meta found md now))\<rparr>
           else db)"
    using assms ne by (cases "sessionMeta db ?key") (auto simp: ensureSession_def Let_def)
  show "eventProcessed (es_db es) = eventProcessed db"
    by (cases "sessionMeta db ?key") (simp_all add: es create_session_def Let_def)
  show "\<exists>m. sessionMeta (es_db es) (session_key (sanitizePubkey pubkey) (es_sessionId es)) = Some m"
    unfolding sid
    by (cases "sessionMeta db ?key") (simp_all add: es create_session_def Let_def)
  show "stored_messages (es_db es) (session_key (sanitizePubkey pubkey) (es_sessionId es)) =
           (if sessionMeta db (session_key (sanitizePubkey pubkey) (es_sessionId es)) = None
            then [] else stored_messages db (session_key (sanitizePubkey pubkey) (es_sessionId es)))"
    unfolding sid
    by (cases "sessionMeta db ?key")
       (simp_all add: es create_session_def Let_def stored_messages_def)
  show "\<And>k. k \<noteq> session_key (sanitizePubkey pubkey) (es_sessionId es) \<Longrightarrow>
           sessionMeta (es_db es) k = sessionMeta db k \<and>
           sessionMessages (es_db es) k = sessionMessages db k"
    unfolding sid
    by (cases "sessionMeta db ?key") (simp_all add: es create_session_def Let_def)
qed

lemma ensureSession_count:
  assumes "ensureSession db pubkey req md now uuid = Inr es"
    and "sessionMeta db (session_key (sanitizePubkey pubkey) (es_sessionId es)) = Some m0"
  shows "\<exists>m. sessionMeta (es_db es) (session_key (sanitizePubkey pubkey) (es_sessionId es)) = Some m
            \<and> messageCount m = messageCount m0"
proof -
  let ?key = "session_key (sanitizePubkey pubkey) (resolve_sessionId req now uuid)"
  have sid: "es_sessionId es = resolve_sessionId req now uuid"
    using assms(1) by (rule ensureSession_effect(1))
  have ne: "sanitizePubkey pubkey \<noteq> []"
    using assms by (auto simp: ensureSession_def Let_def split: if_splits)
  have "es_db es =
      (if snd (refresh_meta m0 md now)
       then db\<lparr>sessionMeta := (sessionMeta db)(?key \<mapsto> fst (refresh_meta m0 md now))\<rparr>
       else db)"
    using assms ne unfolding sid by (auto simp: ensureSession_def Let_def)
  then show ?thesis
    using assms(2) unfolding sid by simp
qed

lemma length_push_message: "length (push_message stored r) \<le> 1000"
  by (simp add: push_message_def slice_last_def Let_def)

lemma push_message_slice: "push_message stored r = slice_last 1000 (stored @ [r])"
  by (simp add: push_message_def slice_last_def Let_def)

lemma store_message_messages:
  "sessionMessages (store_message db1 key sid r ev ts) =
     (sessionMessages db1)(key \<mapsto> push_message (stored_messages db1 key) r)"
  by (simp add: store_message_def Let_def split: option.splits)


lemma store_message_meta:
  "sessionMeta (store_message db1 key sid r ev ts) =
     (case sessionMeta db1 key of None \<Rightarrow> sessionMeta db1
      | Some m \<Rightarrow> (sessionMeta db1)(key \<mapsto> m\<lparr> lastMessageAt := ts,
           messageCount := length (push_message (stored_messages db1 key) r) \<rparr>))"
  by (simp add: store_message_def Let_def split: option.splits)

lemma saveMessage_duplicate:
  assumes "sanitizePubkey pubkey \<noteq> []" and "truthy (md_eventId metadata) = Some e"
    and "eventProcessed db e = Some mk"
  shows "saveMessage db pubkey content fromBot metadata now uuid =
     Inr \<lparr> duplicate = True, sessionId = pe_sessionId mk, timestamp = pe_timestamp mk,
            saved_messageCount = None, db_after = db \<rparr>"
  using assms by (simp add: saveMessage_def Let_def)

lemma saveMessage_cases:
  assumes "saveMessage db pubkey content fromBot metadata now uuid = Inr r"
  obtains (dup) e mk where "truthy (md_eventId metadata) = Some e" "eventProcessed db e = Some mk"
      "duplicate r" "db_after r = db"
  | (fresh) es where
      "\<forall>e. truthy (md_eventId metadata) = Some e \<longrightarrow> eventProcessed db e = None"
      "ensureSession db (sanitizePubkey pubkey) (md_sessionId metadata)
         \<lparr> source = message_source metadata, sessionLabel = md_sessionLabel metadata,
           touch = False \<rparr> now uuid = Inr es"
      "\<not> duplicate r" "sessionId r = es_sessionId es" "timestamp r = message_ts metadata now"
      "db_after r = store_message (es_db es)
         (session_key (sanitizePubkey pubkey) (es_sessionId es)) (es_sessionId es)
         (new_record (sanitizePubkey pubkey) (es_sessionId es) content fromBot
            (message_ts metadata now) metadata)
         (truthy (md_eventId metadata)) (message_ts metadata now)"
proof -
  have ne: "sanitizePubkey pubkey \<noteq> []"
    using assms by (auto simp: saveMessage_def Let_def split: if_splits)
  show thesis
  proof (cases "case truthy (md_eventId metadata) of None \<Rightarrow> None | Some e \<Rightarrow> eventProcessed db e")
    case (Some mk)
    then obtain e where e: "truthy (md_eventId metadata) = Some e" "eventProcessed db e = Some mk"
      by (auto split: option.splits)
    have "r = \<lparr> duplicate = True, sessionId = pe_sessionId mk, timestamp = pe_timestamp mk,
            saved_messageCount = None, db_after = db \<rparr>"
      using assms saveMessage_duplicate [OF ne e, of content fromBot now uuid] by simp
    then show thesis using e by (intro dup [of e mk]) simp_all
  next
    case None
    then have absent: "\<forall>e. truthy (md_eventId metadata) = Some e \<longrightarrow> eventProcessed db e = None"
      by (auto split: option.splits)
    obtain es where es: "ensureSession db (sanitizePubkey pubkey) (md_sessionId metadata)
         \<lparr> source = message_source metadata, sessionLabel = md_sessionLabel metadata,
           touch = False \<rparr> now uuid = Inr es"
      using ensureSession_total [of "sanitizePubkey pubkey" db "md_sessionId metadata"
          "\<lparr> source = message_source metadata, sessionLabel = md_sessionLabel metadata,
             touch = False \<rparr>" now uuid] ne
      by (auto simp: sanitizePubkey_idem)
    have "r = \<lparr> duplicate = False, sessionId = es_sessionId es,
                timestamp = message_ts metadata now,
                saved_messageCount = Some (length (push_message (stored_messages (es_db es)
                    (session_key (sanitizePubkey pubkey) (es_sessionId es)))
                  (new_record (sanitizePubkey pubkey) (es_sessionId es) content fromBot
                     (message_ts metadata now) metadata))),
                db_after = store_message (es_db es)
         (session_key (sanitizePubkey pubkey) (es_sessionId es)) (es_sessionId es)
         (new_record (sanitizePubkey pubkey) (es_sessionId es) content fromBot
            (message_ts metadata now) metadata)
         (truthy (md_eventId metadata)) (message_ts metadata now) \<rparr>"
      using assms ne None es by (simp add: saveMessage_def Let_def message_ts_def)
    then show thesis using absent es by (intro fresh [of es]) simp_all
  qed
qed

lemma store_message_stored:
  "stored_messages (store_message db1 key sid r ev ts) key =
     push_message (stored_messages db1 key) r"
  by (simp add: stored_messages_def store_message_messages)

lemma saveMessage_written:
  assumes "saveMessage db pubkey content fromBot metadata now uuid = Inr r" and "\<not> duplicate r"
  shows "sessionMessages (db_after r) (session_key (sanitizePubkey pubkey) (sessionId r)) =
           Some (slice_last 1000
             ((if sessionMeta db (session_key (sanitizePubkey pubkey) (sessionId r)) = None then []
               else stored_messages db (session_key (sanitizePubkey pubkey) (sessionId r)))
              @ [new_record (sanitizePubkey pubkey) (sessionId r) content fromBot
                   (timestamp r) metadata]))
    \<and> (\<exists>m. sessionMeta (db_after r) (session_key (sanitizePubkey pubkey) (sessionId r)) = Some m \<and>
           messageCount m =
             length (stored_messages (db_after r) (session_key (sanitizePubkey pubkey) (sessionId r))))
    \<and> (\<forall>k. k \<noteq> session_key (sanitizePubkey pubkey) (sessionId r) \<longrightarrow>
           sessionMeta (db_after r) k = sessionMeta db k \<and>
           sessionMessages (db_after r) k = sessionMessages db k)"
  using assms(1)
proof (cases rule: saveMessage_cases)
  case (dup e mk)
  then show ?thesis using assms(2) by simp
next
  case (fresh es)
  let ?key = "session_key (sanitizePubkey pubkey) (es_sessionId es)"
  note eff = ensureSession_effect [OF fresh(2), unfolded sanitizePubkey_idem]
  obtain m where m: "sessionMeta (es_db es) ?key = Some m"
    using eff(3) by blast
  show ?thesis
    unfolding fresh(4,5,6)
    by (simp add: store_message_messages store_message_meta store_message_stored
        eff(4) eff(5) push_message_slice m)
qed

lemma length_slice_last: "length (slice_last n xs) \<le> n"
  by (simp add: slice_last_def)

lemma saveMessage_log_inv:
  assumes "saveMessage db pubkey content fromBot metadata now uuid = Inr r" and "log_inv db"
  shows "log_inv (db_after r)"
proof (cases "duplicate r")
  case True
  have "db_after r = db"
    using assms(1)
  proof (cases rule: saveMessage_cases)
    case (dup e mk)
    then show ?thesis by simp
  next
    case (fresh es)
    with True show ?thesis by simp
  qed
  then show ?thesis using assms(2) by simp
next
  case False
  let ?key = "session_key (sanitizePubkey pubkey) (sessionId r)"
  note w = saveMessage_written [OF assms(1) False]
  show ?thesis
    unfolding log_inv_def
  proof (intro allI impI)
    fix key m
    assume km: "sessionMeta (db_after r) key = Some m"
    show "messageCount m = length (stored_messages (db_after r) key) \<and>
          length (stored_messages (db_after r) key) \<le> 1000"
    proof (cases "key = ?key")
      case True
      have "length (stored_messages (db_after r) ?key) \<le> 1000"
        using w by (simp add: stored_messages_def length_slice_last)
      then show ?thesis using w km True by auto
    next
      case False
      then have "sessionMeta db key = Some m" "stored_messages (db_after r) key = stored_messages db key"
        using w km by (simp_all add: stored_messages_def)
      then show ?thesis using assms(2) by (simp add: log_inv_def)
    qed
  qed
qed







lemma saveMessage_total:
  assumes "sanitizePubkey pubkey \<noteq> []"
  shows "\<exists>r. saveMessage db pubkey content fromBot metadata now uuid = Inr r"
proof (cases "case truthy (md_eventId metadata) of None \<Rightarrow> None | Some e \<Rightarrow> eventProcessed db e")
  case None
  obtain es where es: "ensureSession db (sanitizePubkey pubkey) (md_sessionId metadata)
         \<lparr> source = message_source metadata, sessionLabel = md_sessionLabel metadata,
           touch = False \<rparr> now uuid = Inr es"
    using ensureSession_total [of "sanitizePubkey pubkey" db "md_sessionId metadata"
          "\<lparr> source = message_source metadata, sessionLabel = md_sessionLabel metadata,
             touch = False \<rparr>" now uuid] assms
    by (auto simp: sanitizePubkey_idem)
  show ?thesis using assms None es by (simp add: saveMessage_def Let_def)
next
  case (Some mk)
  then show ?thesis using assms by (simp add: saveMessage_def Let_def)
qed

lemma saveMessage_session:
  assumes "saveMessage db pubkey msg fromBot metadata now uuid = Inr r" and "\<not> duplicate r"
  shows "sessionId r = resolve_sessionId (md_sessionId metadata) now uuid \<and>
         timestamp r = (case md_timestamp metadata of Some t \<Rightarrow> t | None \<Rightarrow> now)"
  using assms(1)
proof (cases rule: saveMessage_cases)
  case (dup e mk)
  with assms(2) show ?thesis by simp
next
  case (fresh es)
  then show ?thesis
    using ensureSession_effect(1) [OF fresh(2)] by (simp add: message_ts_def)
qed

text \<open>
  C6. A call of \<open>saveMessage\<close> that returns (it does whenever the pubkey is valid,
  \<open>saveMessage_total\<close>) either found the event id already processed and changed nothing,
  or wrote the log of its session: with \<open>appended\<close> the log the session had (empty for a
  session created by this call) followed by the new record, the stored log is
  \<open>appended\<close> without its first \<open>length appended - 1000\<close> records. So the stored log has
  \<open>min 1000 (length before + 1)\<close> records, its last record is the new one, carrying the
  text, the direction, the timestamp and the event id of the call, and records are lost
  at the front only. The metadata of the session exists afterwards and its
  \<open>messageCount\<close> is the length of the stored log. Hence, if before the call every
  session has a log of at most 1000 records whose length is its \<open>messageCount\<close>, so it
  is after the call. The witness saves into a session that already holds 1000 records:
  the oldest one is dropped and the new one is the last of the 1000 stored.
\<close>

theorem saveMessage_log_bounded:
  assumes "saveMessage db pubkey msg fromBot metadata now uuid = Inr r"
  shows "(duplicate r \<longrightarrow> db_after r = db)
    \<and> (\<not> duplicate r \<longrightarrow>
         (let key = session_key (sanitizePubkey pubkey) (sessionId r);
              before = (if sessionMeta db key = None then []
                        else case sessionMessages db key of None \<Rightarrow> [] | Some ms \<Rightarrow> ms);
              appended = before @ [new_record (sanitizePubkey pubkey) (sessionId r) msg fromBot
                                     (timestamp r) metadata]
          in sessionId r = resolve_sessionId (md_sessionId metadata) now uuid \<and>
             timestamp r = (case md_timestamp metadata of Some t \<Rightarrow> t | None \<Rightarrow> now) \<and>
             sessionMessages (db_after r) key = Some (drop (length appended - 1000) appended) \<and>
             (\<exists>stored. sessionMessages (db_after r) key = Some stored \<and>
                length stored = min 1000 (length before + 1) \<and>
                message (last stored) = msg \<and> isFromBot (last stored) = fromBot \<and>
                mr_timestamp (last stored) = timestamp r \<and>
                eventId (last stored) = truthy (md_eventId metadata) \<and>
                (\<exists>m. sessionMeta (db_after r) key = Some m \<and> messageCount m = length stored))))
    \<and> (log_inv db \<longrightarrow> log_inv (db_after r))"
proof -
  have p1: "duplicate r \<longrightarrow> db_after r = db"
  proof
    assume d: "duplicate r"
    show "db_after r = db"
      using assms
    proof (cases rule: saveMessage_cases)
      case (dup e mk)
      then show ?thesis by simp
    next
      case (fresh es)
      with d show ?thesis by simp
    qed
  qed
  have p2: "\<not> duplicate r \<longrightarrow>
         (let key = session_key (sanitizePubkey pubkey) (sessionId r);
              before = (if sessionMeta db key = None then []
                        else case sessionMessages db key of None \<Rightarrow> [] | Some ms \<Rightarrow> ms);
              appended = before @ [new_record (sanitizePubkey pubkey) (sessionId r) msg fromBot
                                     (timestamp r) metadata]
          in sessionId r = resolve_sessionId (md_sessionId metadata) now uuid \<and>
             timestamp r = (case md_timestamp metadata of Some t \<Rightarrow> t | None \<Rightarrow> now) \<and>
             sessionMessages (db_after r) key = Some (drop (length appended - 1000) appended) \<and>
             (\<exists>stored. sessionMessages (db_after r) key = Some stored \<and>
                length stored = min 1000 (length before + 1) \<and>
                message (last stored) = msg \<and> isFromBot (last stored) = fromBot \<and>
                mr_timestamp (last stored) = timestamp r \<and>
                eventId (last stored) = truthy (md_eventId metadata) \<and>
                (\<exists>m. sessionMeta (db_after r) key = Some m \<and> messageCount m = length stored)))"
  proof
    assume nd: "\<not> duplicate r"
    let ?key = "session_key (sanitizePubkey pubkey) (sessionId r)"
    let ?before = "if sessionMeta db ?key = None then []
                   else case sessionMessages db ?key of None \<Rightarrow> [] | Some ms \<Rightarrow> ms"
    let ?new = "new_record (sanitizePubkey pubkey) (sessionId r) msg fromBot (timestamp r) metadata"
    let ?appended = "?before @ [?new]"
    let ?stored = "drop (length ?appended - 1000) ?appended"
    note w = saveMessage_written [OF assms nd]
    note s = saveMessage_session [OF assms nd]
    have st: "sessionMessages (db_after r) ?key = Some ?stored"
      using w by (simp add: slice_last_def stored_messages_def)
    have len: "length ?stored = min 1000 (length ?before + 1)"
      by simp
    have ne: "length ?appended - 1000 < length ?appended"
      by simp
    have l: "last ?stored = ?new"
      using last_drop [OF ne] by simp
    have f: "message ?new = msg \<and> isFromBot ?new = fromBot \<and> mr_timestamp ?new = timestamp r \<and>
             eventId ?new = truthy (md_eventId metadata)"
      by (simp add: new_record_def)
    obtain m where m: "sessionMeta (db_after r) ?key = Some m"
        "messageCount m = length (stored_messages (db_after r) ?key)"
      using w by blast
    have mc: "messageCount m = length ?stored"
      using m(2) st by (simp add: stored_messages_def)
    have ex: "\<exists>stored. sessionMessages (db_after r) ?key = Some stored \<and>
                length stored = min 1000 (length ?before + 1) \<and>
                message (last stored) = msg \<and> isFromBot (last stored) = fromBot \<and>
                mr_timestamp (last stored) = timestamp r \<and>
                eventId (last stored) = truthy (md_eventId metadata) \<and>
                (\<exists>m. sessionMeta (db_after r) ?key = Some m \<and> messageCount m = length stored)"
      using st len l f m(1) mc by (intro exI [of _ ?stored]) auto
    show "let key = session_key (sanitizePubkey pubkey) (sessionId r);
              before = (if sessionMeta db key = None then []
                        else case sessionMessages db key of None \<Rightarrow> [] | Some ms \<Rightarrow> ms);
              appended = before @ [new_record (sanitizePubkey pubkey) (sessionId r) msg fromBot
                                     (timestamp r) metadata]
          in sessionId r = resolve_sessionId (md_sessionId metadata) now uuid \<and>
             timestamp r = (case md_timestamp metadata of Some t \<Rightarrow> t | None \<Rightarrow> now) \<and>
             sessionMessages (db_after r) key = Some (drop (length appended - 1000) appended) \<and>
             (\<exists>stored. sessionMessages (db_after r) key = Some stored \<and>
                length stored = min 1000 (length before + 1) \<and>
                message (last stored) = msg \<and> isFromBot (last stored) = fromBot \<and>
                mr_timestamp (last stored) = timestamp r \<and>
                eventId (last stored) = truthy (md_eventId metadata) \<and>
                (\<exists>m. sessionMeta (db_after r) key = Some m \<and> messageCount m = length stored))"
      unfolding Let_def using s st ex by (intro conjI) (simp_all only: simp_thms)
  qed
  have p3: "log_inv db \<longrightarrow> log_inv (db_after r)"
    using saveMessage_log_inv [OF assms] by blast
  show ?thesis
    by (rule conjI [OF p1 conjI [OF p2 p3]])
qed

theorem saveMessage_log_bounded_witness:
  "\<exists>r. saveMessage
         \<lparr> sessionMeta = [''alice:s1'' \<mapsto>
             \<lparr> sm_pubkey = ''alice'', sm_sessionId = ''s1'', createdAt = 1, lastMessageAt = 5,
               messageCount = 1000, origin = Some ''dm'', label = None, lastTouchedAt = None \<rparr>],
           sessionMessages = [''alice:s1'' \<mapsto>
             \<lparr> mr_pubkey = ''alice'', mr_sessionId = ''s1'', message = ''oldest'',
               isFromBot = False, mr_timestamp = 1, messageType = ''question'', replyTo = None,
               eventId = None, eventKind = Some 4, userMetadata = None \<rparr>
             # replicate 999
               \<lparr> mr_pubkey = ''alice'', mr_sessionId = ''s1'', message = ''later'',
                 isFromBot = True, mr_timestamp = 5, messageType = ''response'', replyTo = None,
                 eventId = None, eventKind = Some 4, userMetadata = None \<rparr>],
           userSessions = [''alice'' \<mapsto> [''s1'']],
           eventProcessed = Map.empty \<rparr>
         '' Alice'' ''Hello'' False
         \<lparr> md_timestamp = None, md_eventId = Some ''e1'', md_eventKind = Some 4,
           md_messageType = Some ''question'', md_sessionId = Some ''s1'', md_replyTo = None,
           md_userMetadata = None, md_messageSource = None, md_sessionLabel = None \<rparr>
         1700000000000 ''1b9d6bcd-bbfd-4b2d-9b5d-ab8dfbbd4bed'' = Inr r
       \<and> \<not> duplicate r
       \<and> sessionMessages (db_after r) ''alice:s1'' =
           Some (replicate 999
               \<lparr> mr_pubkey = ''alice'', mr_sessionId = ''s1'', message = ''later'',
                 isFromBot = True, mr_timestamp = 5, messageType = ''response'', replyTo = None,
                 eventId = None, eventKind = Some 4, userMetadata = None \<rparr>
             @ [\<lparr> mr_pubkey = ''alice'', mr_sessionId = ''s1'', message = ''Hello'',
                  isFromBot = False, mr_timestamp = 1700000000000, messageType = ''question'',
                  replyTo = None, eventId = Some ''e1'', eventKind = Some 4,
                  userMetadata = None \<rparr>])
       \<and> (\<exists>m. sessionMeta (db_after r) ''alice:s1'' = Some m \<and> messageCount m = 1000)
       \<and> log_inv (db_after r)"
proof -
  let ?later = "\<lparr> mr_pubkey = ''alice'', mr_sessionId = ''s1'', message = ''later'',
                 isFromBot = True, mr_timestamp = 5, messageType = ''response'', replyTo = None,
                 eventId = None, eventKind = Some 4, userMetadata = None \<rparr>"
  let ?oldest = "\<lparr> mr_pubkey = ''alice'', mr_sessionId = ''s1'', message = ''oldest'',
               isFromBot = False, mr_timestamp = 1, messageType = ''question'', replyTo = None,
               eventId = None, eventKind = Some 4, userMetadata = None \<rparr>"
  let ?db = "\<lparr> sessionMeta = [''alice:s1'' \<mapsto>
             \<lparr> sm_pubkey = ''alice'', sm_sessionId = ''s1'', createdAt = 1, lastMessageAt = 5,
               messageCount = 1000, origin = Some ''dm'', label = None, lastTouchedAt = None \<rparr>],
           sessionMessages = [''alice:s1'' \<mapsto> ?oldest # replicate 999 ?later],
           userSessions = [''alice'' \<mapsto> [''s1'']],
           eventProcessed = Map.empty \<rparr>"
  let ?md = "\<lparr> md_timestamp = None, md_eventId = Some ''e1'', md_eventKind = Some 4,
           md_messageType = Some ''question'', md_sessionId = Some ''s1'', md_replyTo = None,
           md_userMetadata = None, md_messageSource = None, md_sessionLabel = None \<rparr>"
  have pk: "sanitizePubkey '' Alice'' = ''alice''"
    by (simp add: sanitizePubkey_def toLowerCase_def lower_def trim_def is_space_def)
  have sid: "resolve_sessionId (md_sessionId ?md) 1700000000000
               ''1b9d6bcd-bbfd-4b2d-9b5d-ab8dfbbd4bed'' = ''s1''"
    by (simp add: resolve_sessionId_def sanitizeSessionId_def truthy_def trim_def is_space_def)
  have key: "session_key ''alice'' ''s1'' = ''alice:s1''"
    by (simp add: session_key_def)
  obtain r where r: "saveMessage ?db '' Alice'' ''Hello'' False ?md
          1700000000000 ''1b9d6bcd-bbfd-4b2d-9b5d-ab8dfbbd4bed'' = Inr r"
    using saveMessage_total [of "'' Alice''"] pk by fastforce
  have nd: "\<not> duplicate r"
    using r
  proof (cases rule: saveMessage_cases)
    case (dup e mk)
    then show ?thesis by simp
  next
    case (fresh es)
    then show ?thesis by simp
  qed
  have li: "log_inv ?db"
    by (simp add: log_inv_def stored_messages_def)
  note t = saveMessage_log_bounded [OF r]
  have t2: "sessionId r = ''s1''"
    using t nd sid by (simp add: Let_def)
  have st: "sessionMessages (db_after r) ''alice:s1'' =
      Some (replicate 999 ?later @ [new_record ''alice'' ''s1'' ''Hello'' False 1700000000000 ?md])"
    using t nd by (simp add: Let_def pk t2 key)
  have nr: "new_record ''alice'' ''s1'' ''Hello'' False 1700000000000 ?md =
      \<lparr> mr_pubkey = ''alice'', mr_sessionId = ''s1'', message = ''Hello'',
                  isFromBot = False, mr_timestamp = 1700000000000, messageType = ''question'',
                  replyTo = None, eventId = Some ''e1'', eventKind = Some 4,
                  userMetadata = None \<rparr>"
    by (simp add: new_record_def truthy_def truthy_num_def)
  have mc: "\<exists>m. sessionMeta (db_after r) ''alice:s1'' = Some m \<and> messageCount m = 1000"
    using t nd by (auto simp add: Let_def pk t2 key)
  have inv: "log_inv (db_after r)"
    using t li by blast
  show ?thesis
    using r nd st nr mc inv by (intro exI [of _ r]) (simp only: simp_thms)
qed

section \<open>Accounting (zapdb.js, NostrBot.handleZapReceipt)\<close>

text \<open>
  A balance or an amount is a JavaScript number: an integer, or NaN where \<open>parseInt\<close>
  found no digits. Integers are exact here (a double is, up to \<open>2^53\<close>). \<open>x || 0\<close> is
  \<open>js_or_zero\<close>; a comparison with NaN is false. \<open>parseInt\<close> skips leading white space,
  reads a sign, reads hexadecimal digits after \<open>0x\<close> and decimal digits otherwise, and
  stops at the first character that is no digit.

  The embedded request of a receipt is the result of \<open>JSON.parse\<close> on the description
  tag; \<open>json_parse\<close> is that function, \<open>None\<close> where it throws, for requests whose
  \<open>id\<close> and \<open>pubkey\<close> are strings and whose \<open>tags\<close> is an array of arrays of strings.
  What the bot sends to the relays is recorded as a list of effects.
\<close>

datatype jsnum = NaN | Num int

definition js_or_zero :: "jsnum \<Rightarrow> jsnum" where
  "js_or_zero x = (case x of NaN \<Rightarrow> Num 0 | Num n \<Rightarrow> Num n)"

definition js_add :: "jsnum \<Rightarrow> jsnum \<Rightarrow> jsnum" where
  "js_add x y = (case (x, y) of (Num a, Num b) \<Rightarrow> Num (a + b) | _ \<Rightarrow> NaN)"

definition js_sub :: "jsnum \<Rightarrow> jsnum \<Rightarrow> jsnum" where
  "js_sub x y = (case (x, y) of (Num a, Num b) \<Rightarrow> Num (a - b) | _ \<Rightarrow> NaN)"

definition js_less :: "jsnum \<Rightarrow> jsnum \<Rightarrow> bool" where
  "js_less x y = (case (x, y) of (Num a, Num b) \<Rightarrow> a < b | _ \<Rightarrow> False)"

definition js_floor_div :: "jsnum \<Rightarrow> int \<Rightarrow> jsnum" where
  "js_floor_div x d = (case x of NaN \<Rightarrow> NaN | Num n \<Rightarrow> Num (n div d))"

definition digit_value :: "nat \<Rightarrow> char \<Rightarrow> nat option" where
  "digit_value radix c =
     (case map_of (zip ''0123456789abcdefABCDEF''
                       [0, 1, 2, 3, 4, 5, 6, 7, 8, 9, 10, 11, 12, 13, 14, 15, 10, 11, 12, 13, 14, 15]) c of
        None \<Rightarrow> None
      | Some d \<Rightarrow> if d < radix then Some d else None)"

fun digits_prefix :: "nat \<Rightarrow> string \<Rightarrow> nat list" where
  "digits_prefix radix [] = []"
| "digits_prefix radix (c # cs) =
     (case digit_value radix c of None \<Rightarrow> [] | Some d \<Rightarrow> d # digits_prefix radix cs)"

definition parse_digits :: "nat \<Rightarrow> string \<Rightarrow> int \<Rightarrow> jsnum" where
  "parse_digits radix s sign =
     (let ds = digits_prefix radix s
      in if ds = [] then NaN
         else Num (sign * int (foldl (\<lambda>acc d. acc * radix + d) 0 ds)))"

definition parse_unsigned :: "string \<Rightarrow> int \<Rightarrow> jsnum" where
  "parse_unsigned s sign =
     (if startsWith s ''0x'' \<or> startsWith s ''0X'' then parse_digits 16 (drop 2 s) sign
      else parse_digits 10 s sign)"

definition parseInt :: "string \<Rightarrow> jsnum" where
  "parseInt s =
     (case dropWhile is_space s of
        [] \<Rightarrow> NaN
      | c # cs \<Rightarrow> if c = CHR ''-'' then parse_unsigned cs (- 1)
                  else if c = CHR ''+'' then parse_unsigned cs 1
                  else parse_unsigned (c # cs) 1)"

record balance_data =
  bd_pubkey :: string
  balance :: jsnum
  lastUpdated :: nat

record zap_request =
  zr_id :: "string option"
  zr_pubkey :: "string option"
  zr_tags :: "string list list option"

record zap_record =
  sender :: string
  amount :: jsnum
  zap_timestamp :: nat
  zapRequest :: "string option"
  zapReceipt :: "string option"
  bolt11 :: "string option"
  description :: "zap_request option"

record ZapDatabase =
  balances :: "string \<rightharpoonup> balance_data"
  zaps :: "string \<rightharpoonup> zap_record"

definition empty_ZapDatabase :: ZapDatabase where
  "empty_ZapDatabase = \<lparr> balances = Map.empty, zaps = Map.empty \<rparr>"

definition stored_balance :: "ZapDatabase \<Rightarrow> string \<Rightarrow> jsnum" where
  "stored_balance zdb pubkey =
     (case balances zdb pubkey of None \<Rightarrow> Num 0 | Some b \<Rightarrow> balance b)"

definition addToBalance :: "ZapDatabase \<Rightarrow> string \<Rightarrow> jsnum \<Rightarrow> nat \<Rightarrow> jsnum \<times> ZapDatabase" where
  "addToBalance zdb pubkey amt now =
     (let newBalance = \<lparr> bd_pubkey = pubkey,
                          balance = js_add (js_or_zero (stored_balance zdb pubkey)) amt,
                          lastUpdated = now \<rparr>
      in (balance newBalance, zdb\<lparr>balances := (balances zdb)(pubkey \<mapsto> newBalance)\<rparr>))"

definition getBalance :: "ZapDatabase \<Rightarrow> string \<Rightarrow> jsnum" where
  "getBalance zdb pubkey =
     (case balances zdb pubkey of None \<Rightarrow> Num 0 | Some b \<Rightarrow> js_or_zero (balance b))"

definition deductFromBalance ::
  "ZapDatabase \<Rightarrow> string \<Rightarrow> nat \<Rightarrow> nat \<Rightarrow> jsnum option \<times> ZapDatabase" where
  "deductFromBalance zdb pubkey cost now =
     (if js_less (stored_balance zdb pubkey) (Num (int cost)) then (None, zdb)
      else (let newBalance = \<lparr> bd_pubkey = pubkey,
                                balance = js_sub (stored_balance zdb pubkey) (Num (int cost)),
                                lastUpdated = now \<rparr>
            in (Some (balance newBalance),
                zdb\<lparr>balances := (balances zdb)(pubkey \<mapsto> newBalance)\<rparr>)))"

definition saveZap :: "ZapDatabase \<Rightarrow> zap_record \<Rightarrow> nat \<Rightarrow> string \<times> ZapDatabase" where
  "saveZap zdb zapData now =
     (let zapId = sender zapData @ '':'' @ decimal now;
          zdb1 = zdb\<lparr>zaps := (zaps zdb)(zapId \<mapsto> zapData\<lparr>zap_timestamp := now\<rparr>)\<rparr>
      in (zapId, snd (addToBalance zdb1 (sender zapData) (amount zapData) now)))"

record event =
  ev_id :: string
  ev_pubkey :: string
  kind :: nat
  tags :: "string list list"
  content :: string
  created_at :: nat

definition find_tag :: "string \<Rightarrow> string list list \<Rightarrow> string list option" where
  "find_tag name ts = find (\<lambda>tag. case tag of [] \<Rightarrow> False | t # rest \<Rightarrow> t = name) ts"

definition tag_value :: "string list option \<Rightarrow> string option" where
  "tag_value tag =
     (case tag of Some (t # v # rest) \<Rightarrow> truthy (Some v) | _ \<Rightarrow> None)"

definition tag_amount :: "string list list \<Rightarrow> jsnum option" where
  "tag_amount ts =
     (case tag_value (find_tag ''amount'' ts) of
        None \<Rightarrow> None
      | Some v \<Rightarrow> Some (js_floor_div (parseInt v) 1000))"

definition request_amount :: "zap_request \<Rightarrow> string list list \<Rightarrow> jsnum" where
  "request_amount zr receipt_tags =
     (let amount1 = (case zr_tags zr of
                       None \<Rightarrow> Num 0
                     | Some ts \<Rightarrow> (case tag_amount ts of None \<Rightarrow> Num 0 | Some a \<Rightarrow> a))
      in if amount1 = Num 0
         then (case tag_amount receipt_tags of None \<Rightarrow> amount1 | Some a \<Rightarrow> a)
         else amount1)"

datatype effect =
    Warned string
  | SentDM string string "string option"
  | SentReply string string
  | PublishedBalanceUpdate string jsnum jsnum
  | PublishedBalanceResponse string jsnum
  | AICall string
  | Debited string nat

record zap_handled =
  zh_db :: ZapDatabase
  zh_effects :: "effect list"

definition receipt_request :: "event \<Rightarrow> (string \<Rightarrow> zap_request option) \<Rightarrow> zap_request option" where
  "receipt_request ev json_parse =
     (case tag_value (find_tag ''description'' (tags ev)) of
        None \<Rightarrow> None
      | Some d \<Rightarrow> json_parse d)"

definition receipt_sender :: "event \<Rightarrow> zap_request option \<Rightarrow> string" where
  "receipt_sender ev parsed =
     (case parsed of
        None \<Rightarrow> ev_pubkey ev
      | Some zr \<Rightarrow> (case truthy (zr_pubkey zr) of Some p \<Rightarrow> p | None \<Rightarrow> ev_pubkey ev))"

definition receipt_amount :: "event \<Rightarrow> zap_request option \<Rightarrow> jsnum" where
  "receipt_amount ev parsed =
     (case parsed of None \<Rightarrow> Num 0 | Some zr \<Rightarrow> request_amount zr (tags ev))"

definition receipt_data :: "event \<Rightarrow> zap_request option \<Rightarrow> nat \<Rightarrow> zap_record" where
  "receipt_data ev parsed now =
     \<lparr> sender = receipt_sender ev parsed, amount = receipt_amount ev parsed,
       zap_timestamp = now,
       zapRequest = (case parsed of None \<Rightarrow> None | Some zr \<Rightarrow> truthy (zr_id zr)),
       zapReceipt = truthy (Some (ev_id ev)),
       bolt11 = (case find_tag ''bolt11'' (tags ev) of
                   Some (t # v # rest) \<Rightarrow> truthy (Some v) | _ \<Rightarrow> None),
       description = parsed \<rparr>"

definition handleZapReceipt ::
  "ZapDatabase \<Rightarrow> event \<Rightarrow> (string \<Rightarrow> zap_request option) \<Rightarrow> nat \<Rightarrow> zap_handled" where
  "handleZapReceipt zdb ev json_parse now =
     (let parsed = receipt_request ev json_parse;
          payer = receipt_sender ev parsed;
          amt = receipt_amount ev parsed
      in if amt = Num 0
         then \<lparr> zh_db = zdb, zh_effects = [Warned ''Zap amount is zero or could not be extracted''] \<rparr>
         else
           (let zdb1 = snd (saveZap zdb (receipt_data ev parsed now) now);
                bal = getBalance zdb1 payer
            in \<lparr> zh_db = zdb1,
                 zh_effects = [PublishedBalanceUpdate payer bal amt,
                               PublishedBalanceResponse payer bal] \<rparr>))"

section \<open>Properties of the accounting\<close>

lemmas zap_defs = handleZapReceipt_def receipt_request_def receipt_sender_def receipt_amount_def
  receipt_data_def request_amount_def tag_amount_def tag_value_def find_tag_def truthy_def
  saveZap_def addToBalance_def getBalance_def stored_balance_def js_or_zero_def js_add_def
  js_floor_div_def Let_def

lemmas parseInt_defs = parseInt_def parse_unsigned_def parse_digits_def digit_value_def
  is_space_def

lemma parseInt_negative: "parseInt ''-5000'' = Num (- 5000)"
  by (simp add: parseInt_defs)

lemma parseInt_letters: "parseInt ''abc'' = NaN"
  by (simp add: parseInt_defs)

lemma parseInt_zero: "parseInt ''0'' = Num 0"
  by (simp add: parseInt_defs)

text \<open>A receipt whose amount comes out as the number 0 is dropped with the warning.\<close>

lemma handleZapReceipt_zero:
  "receipt_amount ev (receipt_request ev json_parse) = Num 0 \<Longrightarrow>
   handleZapReceipt zdb ev json_parse now =
     \<lparr> zh_db = zdb, zh_effects = [Warned ''Zap amount is zero or could not be extracted''] \<rparr>"
  by (simp add: handleZapReceipt_def Let_def)

text \<open>
  A credit of a non-negative amount and a debit keep a non-negative balance
  non-negative; a debit larger than the balance is refused and changes nothing.
\<close>

lemma addToBalance_nonneg:
  "stored_balance zdb pubkey = Num b \<Longrightarrow> 0 \<le> b \<Longrightarrow> 0 \<le> a \<Longrightarrow>
   stored_balance (snd (addToBalance zdb pubkey (Num a) now)) pubkey = Num (b + a) \<and> 0 \<le> b + a"
  by (simp add: addToBalance_def stored_balance_def js_or_zero_def js_add_def Let_def)

lemma deductFromBalance_nonneg:
  "stored_balance zdb pubkey = Num b \<Longrightarrow>
   deductFromBalance zdb pubkey cost now =
     (if b < int cost then (None, zdb)
      else (Some (Num (b - int cost)),
            zdb\<lparr>balances := (balances zdb)
                   (pubkey \<mapsto> \<lparr> bd_pubkey = pubkey, balance = Num (b - int cost),
                                 lastUpdated = now \<rparr>)\<rparr>))"
  by (simp add: deductFromBalance_def js_less_def js_sub_def Let_def)

text \<open>
  C1 says that a credit of a receipt amount that passed the zero check leaves the
  balance of the sender non-negative. The zero check is the only check of the amount:
  a receipt whose request carries the amount tag \<open>-5000\<close> passes it with the amount
  \<open>-5\<close>, is stored, and takes the balance of \<open>p1\<close> from 0 to \<open>-5\<close>, which is what
  \<open>getBalance\<close> then returns and the bot announces.
\<close>

theorem negative_receipt_balance:
  \<open>getBalance (zh_db (handleZapReceipt empty_ZapDatabase
      \<lparr> ev_id = ''r1'', ev_pubkey = ''provider'', kind = 9735,
        tags = [[''p'', ''bot''], [''bolt11'', ''lnbc50n1''],
                [''description'', ''{"pubkey":"p1","tags":[["amount","-5000"]]}'']],
        content = [], created_at = 1700000000 \<rparr>
      (\<lambda>d. if d = ''{"pubkey":"p1","tags":[["amount","-5000"]]}''
           then Some \<lparr> zr_id = None, zr_pubkey = Some ''p1'',
                       zr_tags = Some [[''amount'', ''-5000'']] \<rparr>
           else None)
      1700000000000)) ''p1'' = Num (- 5)
   \<and> js_less (Num (- 5)) (Num 0)
   \<and> getBalance empty_ZapDatabase ''p1'' = Num 0\<close>
  by (simp add: zap_defs parseInt_negative empty_ZapDatabase_def js_less_def)

text \<open>
  C3 says that a receipt whose amount is 0 or unparseable is dropped with a warning.
  The number 0 is dropped (\<open>handleZapReceipt_zero\<close>), but an amount tag without digits
  parses to NaN, and NaN is not \<open>=== 0\<close>: the receipt with the amount tag \<open>abc\<close> is not
  dropped. Its record is stored, the stored balance of \<open>p1\<close> becomes NaN, and the
  balance update is published instead of the warning.
\<close>

theorem unparseable_amount_not_dropped:
  \<open>zaps (zh_db (handleZapReceipt empty_ZapDatabase
      \<lparr> ev_id = ''r2'', ev_pubkey = ''provider'', kind = 9735,
        tags = [[''p'', ''bot''], [''bolt11'', ''lnbc50n1''],
                [''description'', ''{"pubkey":"p1","tags":[["amount","abc"]]}'']],
        content = [], created_at = 1700000000 \<rparr>
      (\<lambda>d. if d = ''{"pubkey":"p1","tags":[["amount","abc"]]}''
           then Some \<lparr> zr_id = None, zr_pubkey = Some ''p1'',
                       zr_tags = Some [[''amount'', ''abc'']] \<rparr>
           else None)
      17)) ''p1:17'' \<noteq> None
   \<and> stored_balance (zh_db (handleZapReceipt empty_ZapDatabase
      \<lparr> ev_id = ''r2'', ev_pubkey = ''provider'', kind = 9735,
        tags = [[''p'', ''bot''], [''bolt11'', ''lnbc50n1''],
                [''description'', ''{"pubkey":"p1","tags":[["amount","abc"]]}'']],
        content = [], created_at = 1700000000 \<rparr>
      (\<lambda>d. if d = ''{"pubkey":"p1","tags":[["amount","abc"]]}''
           then Some \<lparr> zr_id = None, zr_pubkey = Some ''p1'',
                       zr_tags = Some [[''amount'', ''abc'']] \<rparr>
           else None)
      17)) ''p1'' = NaN
   \<and> zh_effects (handleZapReceipt empty_ZapDatabase
      \<lparr> ev_id = ''r2'', ev_pubkey = ''provider'', kind = 9735,
        tags = [[''p'', ''bot''], [''bolt11'', ''lnbc50n1''],
                [''description'', ''{"pubkey":"p1","tags":[["amount","abc"]]}'']],
        content = [], created_at = 1700000000 \<rparr>
      (\<lambda>d. if d = ''{"pubkey":"p1","tags":[["amount","abc"]]}''
           then Some \<lparr> zr_id = None, zr_pubkey = Some ''p1'',
                       zr_tags = Some [[''amount'', ''abc'']] \<rparr>
           else None)
      17)
     = [PublishedBalanceUpdate ''p1'' (Num 0) NaN, PublishedBalanceResponse ''p1'' (Num 0)]\<close>
  by (simp add: zap_defs parseInt_letters empty_ZapDatabase_def decimal.simps digit_def)


section \<open>Relay supervisor (NostrBot.listenToRelay)\<close>

text \<open>
  One run of the subscription loop of a relay, driven by what the relay does: a list of
  subscriptions, each the frames its stream yields and how the stream ends, with the
  value of \<open>signal.aborted\<close> read at the head of the loop and after the stream. The
  state of the relay is its entry of \<open>reconnectAttempts\<close>, its membership of
  \<open>failedRelays\<close> and the \<open>connected\<close> flag of its status. The loop records what it does:
  opening a subscription, handing an event to \<open>handleEvent\<close>, sleeping. When the list
  is used up the loop is still listening. \<open>consume\<close> is the \<open>for await\<close> loop over the
  frames; its last component tells whether a CLOSED frame broke it off.
\<close>

datatype 'e frame = EVENT 'e | EOSE | CLOSED string | OTHER

datatype ending = Done | Error string | AbortError

record 'e subscription =
  aborted_before :: bool
  frames :: "'e frame list"
  ending :: ending
  aborted_after :: bool

record relay_state =
  reconnectAttempts :: nat
  failedRelay :: bool
  connected :: bool

datatype 'e action = Subscribed | Delivered 'e | Slept nat

datatype loop_exit = Aborted | MarkedFailed | SkippedFailed | Listening

record 'e listened =
  loop_exit :: loop_exit
  relay :: relay_state
  actions :: "'e action list"

definition maxReconnectAttempts :: nat where
  "maxReconnectAttempts = 5"

definition reconnect_delay :: "nat \<Rightarrow> nat" where
  "reconnect_delay attempts = min (5000 * 2 ^ attempts) 60000"

fun consume :: "relay_state \<Rightarrow> 'e frame list \<Rightarrow> 'e action list \<Rightarrow> relay_state \<times> 'e action list \<times> bool" where
  "consume st [] acts = (st, acts, False)"
| "consume st (EVENT e # fs) acts = consume (st\<lparr>reconnectAttempts := 0\<rparr>) fs (acts @ [Delivered e])"
| "consume st (EOSE # fs) acts = consume st fs acts"
| "consume st (CLOSED why # fs) acts = (st, acts, True)"
| "consume st (OTHER # fs) acts = consume st fs acts"

fun listenToRelay ::
  "nat \<Rightarrow> relay_state \<Rightarrow> 'e subscription list \<Rightarrow> 'e action list \<Rightarrow> 'e listened" where
  "listenToRelay mx st [] acts = \<lparr> loop_exit = Listening, relay = st, actions = acts \<rparr>"
| "listenToRelay mx st (s # ss) acts =
     (if aborted_before s then \<lparr> loop_exit = Aborted, relay = st, actions = acts \<rparr>
      else if failedRelay st then \<lparr> loop_exit = SkippedFailed, relay = st, actions = acts \<rparr>
      else
       (case consume st (frames s) (acts @ [Subscribed]) of
          (st1, acts1, was_closed) \<Rightarrow>
            (let attempts = reconnectAttempts st1
             in if was_closed \<or> ending s = Done
                then (if aborted_after s then listenToRelay mx st1 ss acts1
                      else if attempts \<ge> mx
                      then \<lparr> loop_exit = MarkedFailed,
                             relay = st1\<lparr>failedRelay := True, connected := False\<rparr>,
                             actions = acts1 \<rparr>
                      else listenToRelay mx (st1\<lparr>reconnectAttempts := attempts + 1\<rparr>) ss
                             (acts1 @ [Slept (reconnect_delay attempts)]))
                else if ending s = AbortError
                then \<lparr> loop_exit = Aborted, relay = st1, actions = acts1 \<rparr>
                else if attempts \<ge> mx
                then \<lparr> loop_exit = MarkedFailed,
                       relay = st1\<lparr>failedRelay := True, connected := False\<rparr>,
                       actions = acts1 \<rparr>
                else if aborted_after s then listenToRelay mx st1 ss acts1
                else listenToRelay mx (st1\<lparr>reconnectAttempts := attempts + 1\<rparr>) ss
                       (acts1 @ [Slept (reconnect_delay attempts)]))))"

text \<open>A subscription that fails: no event arrives, and the stream is was_closed, ends or
  throws an error other than the abort, with the signal not aborted.\<close>

definition quiet :: "'e frame \<Rightarrow> bool" where
  "quiet f = (case f of EVENT e \<Rightarrow> False | _ \<Rightarrow> True)"

definition fails :: "'e subscription \<Rightarrow> bool" where
  "fails s = (\<not> aborted_before s \<and> \<not> aborted_after s \<and> list_all quiet (frames s) \<and>
              ending s \<noteq> AbortError)"

definition no_close :: "'e frame \<Rightarrow> bool" where
  "no_close f = (case f of CLOSED why \<Rightarrow> False | _ \<Rightarrow> True)"

fun failing :: "nat \<Rightarrow> 'e subscription list" where
  "failing 0 = []"
| "failing (Suc n) =
     \<lparr> aborted_before = False, frames = [EOSE], ending = Error ''connection lost'',
       aborted_after = False \<rparr> # failing n"

fun backoffs :: "nat \<Rightarrow> nat \<Rightarrow> 'e action list" where
  "backoffs k 0 = []"
| "backoffs k (Suc n) = [Subscribed, Slept (reconnect_delay k)] @ backoffs (Suc k) n"

section \<open>Properties of the relay supervisor\<close>

lemma consume_quiet:
  "list_all quiet fs \<Longrightarrow> \<exists>was_closed. consume st fs acts = (st, acts, was_closed)"
  by (induction st fs acts rule: consume.induct) (auto simp: quiet_def)

lemma consume_event_resets:
  "list_all no_close fs1 \<Longrightarrow> list_all quiet fs2 \<Longrightarrow>
   reconnectAttempts (fst (consume st (fs1 @ EVENT e # fs2) acts)) = 0"
proof (induction st fs1 acts rule: consume.induct)
  case (1 st acts)
  obtain c where "consume (st\<lparr>reconnectAttempts := 0\<rparr>) fs2 (acts @ [Delivered e]) =
      (st\<lparr>reconnectAttempts := 0\<rparr>, acts @ [Delivered e], c)"
    using consume_quiet [OF 1(2)] by blast
  then show ?case by simp
qed (simp_all add: no_close_def)

lemma listen_fail_step:
  assumes "fails s" and "\<not> failedRelay st"
  shows "listenToRelay mx st (s # ss) acts =
     (if reconnectAttempts st \<ge> mx
      then \<lparr> loop_exit = MarkedFailed, relay = st\<lparr>failedRelay := True, connected := False\<rparr>,
             actions = acts @ [Subscribed] \<rparr>
      else listenToRelay mx (st\<lparr>reconnectAttempts := reconnectAttempts st + 1\<rparr>) ss
             (acts @ [Subscribed, Slept (reconnect_delay (reconnectAttempts st))]))"
proof -
  obtain c where c: "consume st (frames s) (acts @ [Subscribed]) = (st, acts @ [Subscribed], c)"
    using consume_quiet [of "frames s" st "acts @ [Subscribed]"] assms(1) by (auto simp: fails_def)
  show ?thesis
    using assms c by (cases "ending s") (auto simp: fails_def Let_def)
qed

lemma listen_skips_failed:
  "failedRelay st \<Longrightarrow> \<not> aborted_before s \<Longrightarrow>
   listenToRelay mx st (s # ss) acts = \<lparr> loop_exit = SkippedFailed, relay = st, actions = acts \<rparr>"
  by simp

lemma listen_fails:
  assumes "\<forall>s \<in> set fs. fails s" and "\<not> failedRelay st"
    and "reconnectAttempts st + length fs \<le> mx"
  shows "listenToRelay mx st (fs @ ss) acts =
     listenToRelay mx (st\<lparr>reconnectAttempts := reconnectAttempts st + length fs\<rparr>) ss
       (acts @ backoffs (reconnectAttempts st) (length fs))"
  using assms
proof (induction fs arbitrary: st acts)
  case Nil
  then show ?case by simp
next
  case (Cons f fs)
  have "listenToRelay mx st ((f # fs) @ ss) acts =
        listenToRelay mx (st\<lparr>reconnectAttempts := reconnectAttempts st + 1\<rparr>) (fs @ ss)
             (acts @ [Subscribed, Slept (reconnect_delay (reconnectAttempts st))])"
    using Cons.prems listen_fail_step [of f st mx "fs @ ss" acts] by simp
  also have "\<dots> = listenToRelay mx
        ((st\<lparr>reconnectAttempts := reconnectAttempts st + 1\<rparr>)
           \<lparr>reconnectAttempts := reconnectAttempts (st\<lparr>reconnectAttempts := reconnectAttempts st + 1\<rparr>)
              + length fs\<rparr>) ss
        ((acts @ [Subscribed, Slept (reconnect_delay (reconnectAttempts st))]) @
          backoffs (reconnectAttempts (st\<lparr>reconnectAttempts := reconnectAttempts st + 1\<rparr>)) (length fs))"
    using Cons.prems by (intro Cons.IH) simp_all
  finally show ?case by simp
qed

lemma fails_failing: "\<forall>s \<in> set (failing n). fails s"
  by (induction n) (simp_all add: fails_def quiet_def)

lemma length_failing: "length (failing n) = n"
  by (induction n) simp_all

lemma listen_marked_failed:
  assumes "\<forall>s \<in> set fs. fails s" and "\<not> failedRelay st" and "reconnectAttempts st = 0"
    and "length fs = Suc mx"
  shows "listenToRelay mx st (fs @ ss) acts =
     \<lparr> loop_exit = MarkedFailed,
       relay = st\<lparr>reconnectAttempts := mx, failedRelay := True, connected := False\<rparr>,
       actions = acts @ backoffs 0 mx @ [Subscribed] \<rparr>"
proof -
  obtain gs g where fs: "fs = gs @ [g]"
    using assms(4) by (metis length_Suc_conv_rev)
  then have len: "length gs = mx" using assms(4) by simp
  have "listenToRelay mx st (gs @ (g # ss)) acts =
      listenToRelay mx (st\<lparr>reconnectAttempts := reconnectAttempts st + length gs\<rparr>) (g # ss)
        (acts @ backoffs (reconnectAttempts st) (length gs))"
    using assms fs len by (intro listen_fails) simp_all
  also have "\<dots> = \<lparr> loop_exit = MarkedFailed,
       relay = st\<lparr>reconnectAttempts := mx, failedRelay := True, connected := False\<rparr>,
       actions = acts @ backoffs 0 mx @ [Subscribed] \<rparr>"
    using assms fs len
      listen_fail_step [of g "st\<lparr>reconnectAttempts := reconnectAttempts st + length gs\<rparr>" mx ss
        "acts @ backoffs (reconnectAttempts st) (length gs)"]
    by simp
  finally show ?thesis using fs by simp
qed

lemma five: "(5::nat) = Suc (Suc (Suc (Suc (Suc 0))))"
  by simp

lemma six: "(6::nat) = Suc (Suc (Suc (Suc (Suc (Suc 0)))))"
  by simp

lemma backoffs_five:
  "backoffs 0 5 = [Subscribed, Slept 5000, Subscribed, Slept 10000, Subscribed,
      Slept 20000, Subscribed, Slept 40000, Subscribed, Slept 60000]"
  unfolding five by (simp add: reconnect_delay_def)

text \<open>
  C9, as the code has it. For a relay not marked failed:
  \<^item> a failed subscription met with the counter at \<open>k\<close> below the maximum makes the
    loop sleep \<open>min(5000 * 2^k, 60000)\<close> ms and continue with the counter at \<open>k + 1\<close>;
  \<^item> an event frame sets the counter to 0;
  \<^item> a failed subscription met with the counter at or above the maximum marks the relay
    failed and ends the loop, and a loop started on a relay marked failed ends without
    subscribing;
  \<^item> so the loop ends with the relay marked failed on the failure that follows the
    last of the \<open>maxReconnectAttempts\<close> reconnects: from the counter 0, on the
    \<open>(maxReconnectAttempts + 1)\<close>-th consecutive failed subscription.
\<close>

theorem relay_backoff:
  assumes "\<not> failedRelay st"
  shows
   "(fails s \<and> reconnectAttempts st < mx \<longrightarrow>
       listenToRelay mx st (s # ss) acts =
         listenToRelay mx (st\<lparr>reconnectAttempts := reconnectAttempts st + 1\<rparr>) ss
           (acts @ [Subscribed, Slept (min (5000 * 2 ^ reconnectAttempts st) 60000)]))
    \<and> (list_all no_close fs1 \<and> list_all quiet fs2 \<longrightarrow>
       reconnectAttempts (fst (consume st (fs1 @ EVENT e # fs2) acts)) = 0)
    \<and> (fails s \<and> mx \<le> reconnectAttempts st \<longrightarrow>
       listenToRelay mx st (s # ss) acts =
         \<lparr> loop_exit = MarkedFailed, relay = st\<lparr>failedRelay := True, connected := False\<rparr>,
           actions = acts @ [Subscribed] \<rparr> \<and>
       (\<not> aborted_before s' \<longrightarrow>
          listenToRelay mx (st\<lparr>failedRelay := True, connected := False\<rparr>) (s' # ss') acts' =
            \<lparr> loop_exit = SkippedFailed, relay = st\<lparr>failedRelay := True, connected := False\<rparr>,
              actions = acts' \<rparr>))
    \<and> (reconnectAttempts st = 0 \<and> length fs = Suc mx \<and> (\<forall>s \<in> set fs. fails s) \<longrightarrow>
       listenToRelay mx st (fs @ ss) acts =
         \<lparr> loop_exit = MarkedFailed,
           relay = st\<lparr>reconnectAttempts := mx, failedRelay := True, connected := False\<rparr>,
           actions = acts @ backoffs 0 mx @ [Subscribed] \<rparr>)"
proof -
  have p1: "fails s \<and> reconnectAttempts st < mx \<longrightarrow>
       listenToRelay mx st (s # ss) acts =
         listenToRelay mx (st\<lparr>reconnectAttempts := reconnectAttempts st + 1\<rparr>) ss
           (acts @ [Subscribed, Slept (min (5000 * 2 ^ reconnectAttempts st) 60000)])"
    using assms listen_fail_step [of s st mx ss acts] by (simp add: reconnect_delay_def)
  have p2: "list_all no_close fs1 \<and> list_all quiet fs2 \<longrightarrow>
       reconnectAttempts (fst (consume st (fs1 @ EVENT e # fs2) acts)) = 0"
    using consume_event_resets [of fs1 fs2 st e acts] by blast
  have p3: "fails s \<and> mx \<le> reconnectAttempts st \<longrightarrow>
       listenToRelay mx st (s # ss) acts =
         \<lparr> loop_exit = MarkedFailed, relay = st\<lparr>failedRelay := True, connected := False\<rparr>,
           actions = acts @ [Subscribed] \<rparr> \<and>
       (\<not> aborted_before s' \<longrightarrow>
          listenToRelay mx (st\<lparr>failedRelay := True, connected := False\<rparr>) (s' # ss') acts' =
            \<lparr> loop_exit = SkippedFailed, relay = st\<lparr>failedRelay := True, connected := False\<rparr>,
              actions = acts' \<rparr>)"
    using assms listen_fail_step [of s st mx ss acts] by simp
  have p4: "reconnectAttempts st = 0 \<and> length fs = Suc mx \<and> (\<forall>s \<in> set fs. fails s) \<longrightarrow>
       listenToRelay mx st (fs @ ss) acts =
         \<lparr> loop_exit = MarkedFailed,
           relay = st\<lparr>reconnectAttempts := mx, failedRelay := True, connected := False\<rparr>,
           actions = acts @ backoffs 0 mx @ [Subscribed] \<rparr>"
    using assms listen_marked_failed [of fs st mx ss acts] by blast
  show ?thesis
    by (rule conjI [OF p1 conjI [OF p2 conjI [OF p3 p4]]])
qed

theorem relay_backoff_witness:
  "listenToRelay maxReconnectAttempts
      \<lparr> reconnectAttempts = 0, failedRelay = False, connected = True \<rparr>
      (failing 6 :: string subscription list) [] =
     \<lparr> loop_exit = MarkedFailed,
       relay = \<lparr> reconnectAttempts = 5, failedRelay = True, connected = False \<rparr>,
       actions = [Subscribed, Slept 5000, Subscribed, Slept 10000, Subscribed, Slept 20000,
                  Subscribed, Slept 40000, Subscribed, Slept 60000, Subscribed] \<rparr>"
proof -
  let ?st = "\<lparr> reconnectAttempts = 0, failedRelay = False, connected = True \<rparr>"
  have nf: "\<not> failedRelay ?st" by simp
  have h: "reconnectAttempts ?st = 0 \<and> length (failing 6 :: string subscription list) = Suc 5
      \<and> (\<forall>s \<in> set (failing 6 :: string subscription list). fails s)"
    using fails_failing [of 6] by (simp add: length_failing)
  note t = relay_backoff [OF nf, where mx = 5 and ss = "[]" and acts = "[]"
      and fs = "failing 6 :: string subscription list"]
  have "listenToRelay 5 ?st ((failing 6 :: string subscription list) @ []) [] =
         \<lparr> loop_exit = MarkedFailed,
           relay = ?st\<lparr>reconnectAttempts := 5, failedRelay := True, connected := False\<rparr>,
           actions = [] @ backoffs 0 5 @ [Subscribed] \<rparr>"
    by (rule mp [OF conjunct2 [OF conjunct2 [OF conjunct2 [OF t]]] h])
  then show ?thesis
    by (simp add: maxReconnectAttempts_def backoffs_five)
qed


text \<open>
  The claim as it was stated fails on its last part: when the counter reaches the
  maximum, on the fifth consecutive failure, the relay is not marked failed; the loop
  sleeps 60 s and subscribes a sixth time, and an event on that subscription resets the
  counter.
\<close>

theorem max_counter_counterexample:
  "reconnectAttempts (relay (listenToRelay maxReconnectAttempts
      \<lparr> reconnectAttempts = 0, failedRelay = False, connected = True \<rparr>
      (failing 5 :: string subscription list) [])) = maxReconnectAttempts
   \<and> \<not> failedRelay (relay (listenToRelay maxReconnectAttempts
      \<lparr> reconnectAttempts = 0, failedRelay = False, connected = True \<rparr>
      (failing 5 :: string subscription list) []))
   \<and> listenToRelay maxReconnectAttempts
      \<lparr> reconnectAttempts = 0, failedRelay = False, connected = True \<rparr>
      (failing 5 @ [\<lparr> aborted_before = False, frames = [EVENT ''hello''], ending = Done,
                      aborted_after = False \<rparr>]) [] =
     \<lparr> loop_exit = Listening,
       relay = \<lparr> reconnectAttempts = 1, failedRelay = False, connected = True \<rparr>,
       actions = [Subscribed, Slept 5000, Subscribed, Slept 10000, Subscribed, Slept 20000,
                  Subscribed, Slept 40000, Subscribed, Slept 60000, Subscribed,
                  Delivered ''hello'', Slept 5000] \<rparr>"
  unfolding five by (simp add: maxReconnectAttempts_def reconnect_delay_def Let_def)


section \<open>Processor (NostrBot.processMessage)\<close>


record NostrBot =
  bot_db :: Database
  bot_zapDb :: ZapDatabase
  bot_gemini :: GeminiAI
  processedMessages :: "string \<rightharpoonup> nat"
  bot_effects :: "effect list"
  bot_errors :: nat










definition emit :: "NostrBot \<Rightarrow> effect list \<Rightarrow> NostrBot" where
  "emit nb effs = nb\<lparr>bot_effects := bot_effects nb @ effs\<rparr>"


















section \<open>Properties of the processor\<close>








lemma emit_simps [simp]:
  "bot_effects (emit nb effs) = bot_effects nb @ effs"
  "bot_db (emit nb effs) = bot_db nb"
  "bot_zapDb (emit nb effs) = bot_zapDb nb"
  by (simp_all add: emit_def)
























end
